theory Spec2Isabelle
  imports Complex_Main
begin

text \<open>
  A shallow embedding of the editor-side completion pipeline of the AI code completion
  extension: \<^verbatim>\<open>CompletionProvider\<close> (completion_provider.ts), \<^verbatim>\<open>APIClient\<close>
  (api_client.ts) and \<^verbatim>\<open>StatisticsManager\<close> (statistics_manager.ts).
  The first part holds the definitions, each beside the source it embeds; the second part
  holds the properties proved about them.
\<close>

section \<open>JavaScript values the code relies on\<close>

text \<open>
  Strings are \<open>string\<close>; a \<open>char\<close> stands for one code unit below 256. Numbers
  that hold counts, sizes and times are \<open>nat\<close> or \<open>int\<close>; numbers that hold
  fractions (confidences, averages, rates) are \<open>rat\<close>, so arithmetic is exact and the
  rounding of IEEE doubles is outside the model.
\<close>

datatype js_error = RangeError string | TypeError string | OtherError string

text \<open>\<^verbatim>\<open>String(n)\<close> for an integer \<open>n\<close>: decimal digits, a leading minus sign.\<close>

fun string_of_nat :: "nat \<Rightarrow> string" where
  "string_of_nat n =
     (if n < 10 then [''0123456789'' ! n]
      else string_of_nat (n div 10) @ [''0123456789'' ! (n mod 10)])"

declare string_of_nat.simps [simp del]

definition String_of_int :: "int \<Rightarrow> string" where
  "String_of_int i =
     (if i < 0 then CHR ''-'' # string_of_nat (nat (- i)) else string_of_nat (nat i))"

text \<open>\<^verbatim>\<open>Math.round\<close> rounds to the nearest integer, a half upwards.\<close>

definition Math_round :: "rat \<Rightarrow> int" where
  "Math_round x = \<lfloor>x + 1 / 2\<rfloor>"

text \<open>\<^verbatim>\<open>s.padStart(n, c)\<close> for a one-character filler.\<close>

definition padStart :: "nat \<Rightarrow> char \<Rightarrow> string \<Rightarrow> string" where
  "padStart n c s = replicate (n - length s) c @ s"

text \<open>
  \<^verbatim>\<open>s.repeat(count)\<close> throws a RangeError for a negative count.
\<close>

definition repeat_str :: "string \<Rightarrow> int \<Rightarrow> js_error + string" where
  "repeat_str s count =
     (if count < 0 then Inl (RangeError ''Invalid count value'')
      else Inr (concat (replicate (nat count) s)))"

text \<open>
  \<^verbatim>\<open>s.split(c)\<close> for a one-character separator and \<^verbatim>\<open>lines.join(sep)\<close>.
  The string is read from its end: a separator opens a new first piece, any other
  character joins the first piece (\<open>cons_to_first\<close>). The result is never empty.
\<close>

fun cons_to_first :: "char \<Rightarrow> string list \<Rightarrow> string list" where
  "cons_to_first x [] = [[x]]"
| "cons_to_first x (l # ls) = (x # l) # ls"

fun split_on :: "char \<Rightarrow> string \<Rightarrow> string list" where
  "split_on c [] = [[]]"
| "split_on c (x # xs) =
     (if x = c then [] # split_on c xs else cons_to_first x (split_on c xs))"

fun join_with :: "string \<Rightarrow> string list \<Rightarrow> string" where
  "join_with sep [] = []"
| "join_with sep [l] = l"
| "join_with sep (l # ls) = l @ sep @ join_with sep ls"

text \<open>
  The class \<^verbatim>\<open>\s\<close> of a regular expression, on code units below 256: tab, line feed,
  vertical tab, form feed, carriage return, space and the no-break space.
\<close>

definition isWhitespace :: "char \<Rightarrow> bool" where
  "isWhitespace c = ((of_char c :: nat) \<in> {9, 10, 11, 12, 13, 32, 160})"

text \<open>\<^verbatim>\<open>xs.slice(-n)\<close>: the last \<open>n\<close> elements, all of them when there are fewer.\<close>

definition slice_last :: "nat \<Rightarrow> 'a list \<Rightarrow> 'a list" where
  "slice_last n xs = drop (length xs - n) xs"

text \<open>
  Comparison of two strings with \<^verbatim>\<open><\<close>: lexicographic on code units. This is the
  order in which the editor arranges completion items by their \<^verbatim>\<open>sortText\<close>.
\<close>

fun str_less :: "string \<Rightarrow> string \<Rightarrow> bool" where
  "str_less [] [] = False"
| "str_less [] (y # ys) = True"
| "str_less (x # xs) [] = False"
| "str_less (x # xs) (y # ys) =
     ((of_char x :: nat) < of_char y \<or> (x = y \<and> str_less xs ys))"

text \<open>
  The result of a division of two numbers: JavaScript does not fail on a zero divisor,
  it yields \<^verbatim>\<open>NaN\<close> or an infinity.
\<close>

datatype js_number = Num rat | NaN | PosInfinity | NegInfinity

definition js_div :: "rat \<Rightarrow> rat \<Rightarrow> js_number" where
  "js_div a b =
     (if b = 0 then (if a = 0 then NaN else if 0 < a then PosInfinity else NegInfinity)
      else Num (a / b))"

fun js_times :: "js_number \<Rightarrow> rat \<Rightarrow> js_number" where
  "js_times (Num a) b = Num (a * b)"
| "js_times NaN b = NaN"
| "js_times PosInfinity b =
     (if b = 0 then NaN else if 0 < b then PosInfinity else NegInfinity)"
| "js_times NegInfinity b =
     (if b = 0 then NaN else if 0 < b then NegInfinity else PosInfinity)"

subsection \<open>JSON.stringify\<close>

text \<open>
  The values \<^verbatim>\<open>JSON.stringify\<close> meets in this program. A property whose value is
  \<^verbatim>\<open>undefined\<close> is left out of the object by the caller (\<open>opt_field\<close> below).
\<close>

datatype json = JNull | JBool bool | JNumber int | JString string
  | JArray "json list" | JObject "(string \<times> json) list"

definition hex2 :: "nat \<Rightarrow> string" where
  "hex2 n = [''0123456789abcdef'' ! (n div 16), ''0123456789abcdef'' ! (n mod 16)]"

definition escape_char :: "char \<Rightarrow> string" where
  "escape_char c =
     (let n = (of_char c :: nat) in
      if n = 0x22 then [CHR 0x5C, CHR 0x22]
      else if n = 0x5C then [CHR 0x5C, CHR 0x5C]
      else if n = 8 then [CHR 0x5C, CHR ''b'']
      else if n = 9 then [CHR 0x5C, CHR ''t'']
      else if n = 10 then [CHR 0x5C, CHR ''n'']
      else if n = 12 then [CHR 0x5C, CHR ''f'']
      else if n = 13 then [CHR 0x5C, CHR ''r'']
      else if n < 0x20 then [CHR 0x5C, CHR ''u'', CHR ''0'', CHR ''0''] @ hex2 n
      else [c])"

definition JSON_quote :: "string \<Rightarrow> string" where
  "JSON_quote s = CHR 0x22 # concat (map escape_char s) @ [CHR 0x22]"

fun JSON_stringify :: "json \<Rightarrow> string" where
  "JSON_stringify JNull = ''null''"
| "JSON_stringify (JBool b) = (if b then ''true'' else ''false'')"
| "JSON_stringify (JNumber n) = String_of_int n"
| "JSON_stringify (JString s) = JSON_quote s"
| "JSON_stringify (JArray xs) = ''['' @ join_with '','' (map JSON_stringify xs) @ '']''"
| "JSON_stringify (JObject kvs) =
     ''{'' @ join_with '',''
        (map (\<lambda>kv. JSON_quote (fst kv) @ '':'' @ JSON_stringify (snd kv)) kvs) @ ''}''"

definition opt_field :: "string \<Rightarrow> json option \<Rightarrow> (string \<times> json) list" where
  "opt_field name v = (case v of None \<Rightarrow> [] | Some j \<Rightarrow> [(name, j)])"

section \<open>The data model (completion_provider.ts, lines 8 to 80)\<close>

datatype IndentStyle = Spaces | Tabs

datatype SuggestionType = SingleLine | MultiLine | Block

datatype Status = Success | Partial | Error

datatype ModelType = CodeGPT | CodeBERT

datatype Scope = LocalScope | GlobalScope | ParameterScope

record FunctionContext =
  fn_name :: string
  fn_parameters :: "string list"
  fn_returnType :: "string option"

record ClassContext =
  cl_name :: string
  cl_methods :: "string list"
  cl_properties :: "string list"

record Variable =
  var_name :: string
  var_type :: string
  var_scope :: Scope

record CodeContext =
  currentLine :: string
  filePath :: "string option"
  previousLines :: "string list"
  position :: "int \<times> int"
  language :: string
  functionContext :: "FunctionContext option"
  classContext :: "ClassContext option"
  ctx_imports :: "string list"
  variables :: "Variable list"
  fileExtension :: "string option"
  indentStyle :: "IndentStyle option"
  indentSize :: "int option"
  contextWindow :: "int option"

record Suggestion =
  s_text :: string
  confidence :: rat
  s_type :: SuggestionType
  description :: "string option"
  cursorOffset :: int
  replaceRange :: "(int \<times> int) option"
  languageSpecific :: "bool option"
  formattingApplied :: "bool option"

record Metadata =
  processingTimeMs :: int
  modelVersion :: string
  cacheHit :: bool
  contextHash :: string
  languageDetected :: "string option"
  configUsed :: "string option"
  modelType :: "ModelType option"

record SuggestionResponse =
  suggestions :: "Suggestion list"
  metadata :: Metadata
  status :: Status
  errorMessage :: "string option"

record LanguageConfig =
  maxTokens :: int
  temperature :: rat
  topP :: rat
  cfg_contextWindow :: int
  commentStyle :: string
  cfg_indentStyle :: IndentStyle
  cfg_indentSize :: int
  fileExtensions :: "string list"

text \<open>The string a template literal or \<^verbatim>\<open>JSON.stringify\<close> shows for an indent style.\<close>

fun indentStyle_string :: "IndentStyle \<Rightarrow> string" where
  "indentStyle_string Spaces = ''spaces''"
| "indentStyle_string Tabs = ''tabs''"

section \<open>The fingerprint of a context (CompletionProvider.generateContextHash)\<close>

text \<open>
  \<^verbatim>\<open>
  private generateContextHash(context: CodeContext): string {
      const contextString = JSON.stringify({
          currentLine: context.currentLine,
          previousLines: context.previousLines.slice(-10), // Last 10 lines for hash
          language: context.language,
          functionContext: context.functionContext,
          classContext: context.classContext,
          fileExtension: context.fileExtension,
          indentStyle: context.indentStyle,
          indentSize: context.indentSize
      });
      return crypto.createHash('md5').update(contextString).digest('hex');
  }
  \<close>
  The MD5 digest of Node's \<^verbatim>\<open>crypto\<close> module is not part of the repository; it is
  the parameter \<open>md5\<close>.
\<close>

definition json_of_strings :: "string list \<Rightarrow> json" where
  "json_of_strings xs = JArray (map JString xs)"

definition json_of_FunctionContext :: "FunctionContext option \<Rightarrow> json" where
  "json_of_FunctionContext f =
     (case f of
        None \<Rightarrow> JNull
      | Some fc \<Rightarrow>
          JObject ([(''name'', JString (fn_name fc)),
                    (''parameters'', json_of_strings (fn_parameters fc))]
                   @ opt_field ''returnType'' (map_option JString (fn_returnType fc))))"

definition json_of_ClassContext :: "ClassContext option \<Rightarrow> json" where
  "json_of_ClassContext c =
     (case c of
        None \<Rightarrow> JNull
      | Some cc \<Rightarrow>
          JObject [(''name'', JString (cl_name cc)),
                   (''methods'', json_of_strings (cl_methods cc)),
                   (''properties'', json_of_strings (cl_properties cc))])"

definition hashProjection :: "CodeContext \<Rightarrow> json" where
  "hashProjection ctx =
     JObject ([(''currentLine'', JString (currentLine ctx)),
               (''previousLines'', json_of_strings (slice_last 10 (previousLines ctx))),
               (''language'', JString (language ctx)),
               (''functionContext'', json_of_FunctionContext (functionContext ctx)),
               (''classContext'', json_of_ClassContext (classContext ctx))]
              @ opt_field ''fileExtension'' (map_option JString (fileExtension ctx))
              @ opt_field ''indentStyle''
                  (map_option (\<lambda>st. JString (indentStyle_string st)) (indentStyle ctx))
              @ opt_field ''indentSize'' (map_option JNumber (indentSize ctx)))"

definition generateContextHash :: "(string \<Rightarrow> string) \<Rightarrow> CodeContext \<Rightarrow> string" where
  "generateContextHash md5 ctx = md5 (JSON_stringify (hashProjection ctx))"

section \<open>The suggestion cache of CompletionProvider\<close>

text \<open>
  \<^verbatim>\<open>private cache = new Map<string, SuggestionResponse>()\<close>.
  A JavaScript Map iterates in insertion order and holds each key once, so it is
  embedded as an association list, oldest entry first. \<open>map_set\<close> is
  \<^verbatim>\<open>Map.prototype.set\<close>: a key already present keeps its place and takes the new
  value, a new key goes to the end. \<open>map_delete\<close> is \<^verbatim>\<open>Map.prototype.delete\<close>.
\<close>

type_synonym ('k, 'v) js_map = "('k \<times> 'v) list"

fun map_set :: "'k \<Rightarrow> 'v \<Rightarrow> ('k, 'v) js_map \<Rightarrow> ('k, 'v) js_map" where
  "map_set k v [] = [(k, v)]"
| "map_set k v (e # m) = (if fst e = k then (k, v) # m else e # map_set k v m)"

definition map_delete :: "'k \<Rightarrow> ('k, 'v) js_map \<Rightarrow> ('k, 'v) js_map" where
  "map_delete k m = filter (\<lambda>e. fst e \<noteq> k) m"

definition map_keys :: "('k, 'v) js_map \<Rightarrow> 'k list" where
  "map_keys m = map fst m"

definition map_size :: "('k, 'v) js_map \<Rightarrow> nat" where
  "map_size m = length m"

definition map_get :: "'k \<Rightarrow> ('k, 'v) js_map \<Rightarrow> 'v option" where
  "map_get k m = map_of m k"

text \<open>
  \<^verbatim>\<open>
  private cleanupCache(): void {
      if (this.cache.size > 100) {
          const keysToDelete = Array.from(this.cache.keys()).slice(0, 50);
          keysToDelete.forEach(key => this.cache.delete(key));
      }
  }
  \<close>
\<close>

definition cleanupCache :: "('k, 'v) js_map \<Rightarrow> ('k, 'v) js_map" where
  "cleanupCache cache =
     (if map_size cache > 100
      then (let keysToDelete = take 50 (map_keys cache)
            in foldl (\<lambda>c key. map_delete key c) cache keysToDelete)
      else cache)"

text \<open>
  One insertion as the pipeline performs it on a successful dispatch:
  \<^verbatim>\<open>this.cache.set(contextHash, response); this.cleanupCache();\<close>
\<close>

definition cache_insert :: "('k, 'v) js_map \<Rightarrow> 'k \<times> 'v \<Rightarrow> ('k, 'v) js_map" where
  "cache_insert cache kv = cleanupCache (map_set (fst kv) (snd kv) cache)"

definition cache_insertions :: "('k \<times> 'v) list \<Rightarrow> ('k, 'v) js_map" where
  "cache_insertions kvs = foldl cache_insert [] kvs"

section \<open>Formatting and ranking of suggestions\<close>

text \<open>
  \<^verbatim>\<open>
  private formatSuggestionText(text: string, context: CodeContext, config?: LanguageConfig): string {
      if (!config) return text;
      const lines = text.split('\n');
      if (lines.length > 1) {
          const indentChar = config.indentStyle === 'tabs' ? '\t' : ' '.repeat(config.indentSize);
          return lines.map((line, index) => {
              if (index === 0) return line; // First line keeps original indentation
              return line.replace(/^(\s*)/, indentChar);
          }).join('\n');
      }
      return text;
  }
  \<close>
  The regular expression matches the longest run of white space at the start of the
  line (possibly empty); \<open>replace_leading_space\<close> puts the indent unit in its place.
\<close>

definition indentChar_of :: "LanguageConfig \<Rightarrow> js_error + string" where
  "indentChar_of config =
     (if cfg_indentStyle config = Tabs then Inr [CHR 0x09]
      else repeat_str '' '' (cfg_indentSize config))"

definition replace_leading_space :: "string \<Rightarrow> string \<Rightarrow> string" where
  "replace_leading_space indentChar line = indentChar @ dropWhile isWhitespace line"

definition reindent_lines :: "string \<Rightarrow> string list \<Rightarrow> string list" where
  "reindent_lines indentChar lines =
     map (\<lambda>(index, line). if index = 0 then line else replace_leading_space indentChar line)
       (zip [0 ..< length lines] lines)"

definition formatSuggestionText ::
  "string \<Rightarrow> CodeContext \<Rightarrow> LanguageConfig option \<Rightarrow> js_error + string" where
  "formatSuggestionText txt ctx config_opt =
     (case config_opt of
        None \<Rightarrow> Inr txt
      | Some config \<Rightarrow>
          (let lines = split_on (CHR 0x0A) txt in
           if length lines > 1
           then (case indentChar_of config of
                   Inl e \<Rightarrow> Inl e
                 | Inr indentChar \<Rightarrow>
                     Inr (join_with [CHR 0x0A] (reindent_lines indentChar lines)))
           else Inr txt))"

text \<open>
  \<^verbatim>\<open>
  const priorityBonus = suggestion.languageSpecific ? 100 : 0;
  const sortValue = 1000 - Math.round(suggestion.confidence * 999) - priorityBonus;
  item.sortText = String(sortValue).padStart(4, '0');
  \<close>
\<close>

definition priorityBonus :: "Suggestion \<Rightarrow> int" where
  "priorityBonus s = (if languageSpecific s = Some True then 100 else 0)"

definition sortValue :: "Suggestion \<Rightarrow> int" where
  "sortValue s = 1000 - Math_round (confidence s * 999) - priorityBonus s"

definition sortText_of :: "Suggestion \<Rightarrow> string" where
  "sortText_of s = padStart 4 (CHR ''0'') (String_of_int (sortValue s))"

datatype CompletionItemKind = KindText | KindSnippet | KindModule

fun getCompletionItemKind :: "SuggestionType \<Rightarrow> CompletionItemKind" where
  "getCompletionItemKind SingleLine = KindText"
| "getCompletionItemKind MultiLine = KindSnippet"
| "getCompletionItemKind Block = KindModule"

record CompletionItem =
  label :: string
  kind :: CompletionItemKind
  insertText :: string
  detail :: string
  documentation :: "string option"
  sortText :: string
  item_range :: "(int \<times> int) option"
  command_arguments :: "nat \<times> SuggestionType \<times> string"

text \<open>
  \<^verbatim>\<open>
  private enhanceDescription(description: string, context: CodeContext): string {
      const languageConfig = this.languageConfigs.get(context.language);
      let enhanced = description;
      if (languageConfig) {
          enhanced += `\n\n**Language:** ${context.language}`;
          enhanced += `\n**Indent Style:** ${languageConfig.indentStyle} (${languageConfig.indentSize})`;
          enhanced += `\n**Comment Style:** ${languageConfig.commentStyle}`;
      }
      return enhanced;
  }
  \<close>
\<close>

definition enhanceDescription ::
  "(string, LanguageConfig) js_map \<Rightarrow> string \<Rightarrow> CodeContext \<Rightarrow> string" where
  "enhanceDescription languageConfigs descr ctx =
     (case map_get (language ctx) languageConfigs of
        None \<Rightarrow> descr
      | Some languageConfig \<Rightarrow>
          descr @ [CHR 0x0A, CHR 0x0A] @ ''**Language:** '' @ language ctx
            @ [CHR 0x0A] @ ''**Indent Style:** ''
            @ indentStyle_string (cfg_indentStyle languageConfig)
            @ '' ('' @ String_of_int (cfg_indentSize languageConfig) @ '')''
            @ [CHR 0x0A] @ ''**Comment Style:** '' @ commentStyle languageConfig)"

text \<open>
  One step of the \<^verbatim>\<open>suggestions.map((suggestion, index) => ...)\<close> of
  \<^verbatim>\<open>convertToCompletionItems\<close> (lines 284 to 324). The editor's constructors
  (\<^verbatim>\<open>CompletionItem\<close>, \<^verbatim>\<open>MarkdownString\<close>, \<^verbatim>\<open>Range\<close>) are taken as plain
  record building; the exception that can arise in the repository's own code is the
  RangeError of \<open>formatSuggestionText\<close>.
\<close>

definition toCompletionItem ::
  "(string, LanguageConfig) js_map \<Rightarrow> CodeContext \<Rightarrow> nat \<Rightarrow> Suggestion
     \<Rightarrow> js_error + CompletionItem" where
  "toCompletionItem languageConfigs ctx index s =
     (case formatSuggestionText (s_text s) ctx (map_get (language ctx) languageConfigs) of
        Inl e \<Rightarrow> Inl e
      | Inr formatted \<Rightarrow>
          Inr \<lparr> label = s_text s,
                kind = getCompletionItemKind (s_type s),
                insertText = formatted,
                detail = ''AI Suggestion ('' @ String_of_int (Math_round (confidence s * 100))
                           @ ''% confidence) - '' @ language ctx,
                documentation =
                  (case description s of
                     None \<Rightarrow> None
                   | Some d \<Rightarrow>
                       if d = [] then None
                       else Some (enhanceDescription languageConfigs d ctx)),
                sortText = sortText_of s,
                item_range = replaceRange s,
                command_arguments = (index, s_type s, language ctx) \<rparr>)"

fun convert_from ::
  "(string, LanguageConfig) js_map \<Rightarrow> CodeContext \<Rightarrow> nat \<Rightarrow> Suggestion list
     \<Rightarrow> js_error + CompletionItem list" where
  "convert_from languageConfigs ctx index [] = Inr []"
| "convert_from languageConfigs ctx index (s # ss) =
     (case toCompletionItem languageConfigs ctx index s of
        Inl e \<Rightarrow> Inl e
      | Inr item \<Rightarrow>
          (case convert_from languageConfigs ctx (Suc index) ss of
             Inl e \<Rightarrow> Inl e
           | Inr items \<Rightarrow> Inr (item # items)))"

definition convertToCompletionItems ::
  "(string, LanguageConfig) js_map \<Rightarrow> Suggestion list \<Rightarrow> CodeContext
     \<Rightarrow> js_error + CompletionItem list" where
  "convertToCompletionItems languageConfigs suggs ctx = convert_from languageConfigs ctx 0 suggs"

section \<open>The request dispatcher (APIClient, api_client.ts)\<close>

text \<open>
  What the \<^verbatim>\<open>catch\<close> of \<open>getSuggestions\<close> reads of the value it caught: the reply
  attached by the HTTP client to a rejected request (status, \<^verbatim>\<open>data?.message\<close>,
  \<^verbatim>\<open>statusText\<close>), whether a request object is attached, the error code and the
  message. \<open>plain_Error\<close> is \<^verbatim>\<open>new Error(msg)\<close>, which has the message only.
\<close>

record ErrorResponse =
  er_status :: int
  er_data_message :: "string option"
  er_statusText :: string

record CaughtError =
  err_response :: "ErrorResponse option"
  err_request :: bool
  err_code :: "string option"
  err_message :: string

definition plain_Error :: "string \<Rightarrow> CaughtError" where
  "plain_Error msg =
     \<lparr> err_response = None, err_request = False, err_code = None, err_message = msg \<rparr>"

text \<open>
  \<^verbatim>\<open>
  private getErrorMessage(error: any): string {
      if (error.response) {
          return `Server error: ${error.response.status} - ${error.response.data?.message || error.response.statusText}`;
      } else if (error.request) {
          return 'No response from server. Please check your connection and API URL.';
      } else if (error.code === 'ECONNABORTED') {
          return 'Request timeout. The AI service is taking too long to respond.';
      } else {
          return `Request failed: ${error.message}`;
      }
  }
  \<close>
\<close>

definition getErrorMessage :: "CaughtError \<Rightarrow> string" where
  "getErrorMessage e =
     (case err_response e of
        Some r \<Rightarrow>
          ''Server error: '' @ String_of_int (er_status r) @ '' - ''
            @ (case er_data_message r of
                 None \<Rightarrow> er_statusText r
               | Some m \<Rightarrow> if m = [] then er_statusText r else m)
      | None \<Rightarrow>
          if err_request e
          then ''No response from server. Please check your connection and API URL.''
          else if err_code e = Some ''ECONNABORTED''
          then ''Request timeout. The AI service is taking too long to respond.''
          else ''Request failed: '' @ err_message e)"

text \<open>
  \<^verbatim>\<open>String.prototype.toLowerCase\<close> on code units below 256, and
  \<^verbatim>\<open>detectLanguage\<close> (lines 201 to 243).
\<close>

definition toLowerCase_char :: "char \<Rightarrow> char" where
  "toLowerCase_char c =
     (let n = (of_char c :: nat) in
      if (0x41 \<le> n \<and> n \<le> 0x5A) \<or> (0xC0 \<le> n \<and> n \<le> 0xDE \<and> n \<noteq> 0xD7)
      then char_of (n + 32) else c)"

definition toLowerCase :: "string \<Rightarrow> string" where
  "toLowerCase s = map toLowerCase_char s"

definition langMap :: "(string \<times> string) list" where
  "langMap =
     [(''py'', ''python''), (''js'', ''javascript''), (''ts'', ''typescript''),
      (''jsx'', ''javascript''), (''tsx'', ''typescript''), (''java'', ''java''),
      (''cpp'', ''cpp''), (''cc'', ''cpp''), (''cxx'', ''cpp''), (''c'', ''c''),
      (''cs'', ''c#''), (''go'', ''go''), (''rs'', ''rust''), (''php'', ''php''),
      (''rb'', ''ruby''), (''swift'', ''swift''), (''kt'', ''kotlin''),
      (''scala'', ''scala''), (''html'', ''html''), (''css'', ''css''),
      (''sql'', ''sql''), (''sh'', ''bash''), (''ps1'', ''powershell'')]"

definition detectLanguage :: "CodeContext \<Rightarrow> string" where
  "detectLanguage ctx =
     (if language ctx \<noteq> [] then toLowerCase (language ctx)
      else (case filePath ctx of
              None \<Rightarrow> ''unknown''
            | Some p \<Rightarrow>
                if p = [] then ''unknown''
                else (let ext = toLowerCase (last (split_on (CHR ''.'') p)) in
                      case map_of langMap ext of
                        Some l \<Rightarrow> l
                      | None \<Rightarrow> ''unknown'')))"

text \<open>
  The body of a reply before it is known to have the shape of a SuggestionResponse:
  an untyped value. \<open>js_prop\<close> reads a property (\<^verbatim>\<open>undefined\<close> when it is absent or
  the value is no object), \<open>truthy\<close> is the test of \<^verbatim>\<open>&&\<close>.
\<close>

datatype js_value = VUndefined | VNull | VBool bool | VNumber rat | VString string
  | VArray "js_value list" | VObject "(string \<times> js_value) list"

fun truthy :: "js_value \<Rightarrow> bool" where
  "truthy VUndefined = False"
| "truthy VNull = False"
| "truthy (VBool b) = b"
| "truthy (VNumber n) = (n \<noteq> 0)"
| "truthy (VString s) = (s \<noteq> [])"
| "truthy (VArray xs) = True"
| "truthy (VObject kvs) = True"

fun js_prop :: "string \<Rightarrow> js_value \<Rightarrow> js_value" where
  "js_prop name (VObject kvs) = (case map_of kvs name of None \<Rightarrow> VUndefined | Some v \<Rightarrow> v)"
| "js_prop name v = VUndefined"

fun isArray :: "js_value \<Rightarrow> bool" where
  "isArray (VArray xs) = True"
| "isArray v = False"

fun typeof :: "js_value \<Rightarrow> string" where
  "typeof VUndefined = ''undefined''"
| "typeof VNull = ''object''"
| "typeof (VBool b) = ''boolean''"
| "typeof (VNumber n) = ''number''"
| "typeof (VString s) = ''string''"
| "typeof (VArray xs) = ''object''"
| "typeof (VObject kvs) = ''object''"

text \<open>
  \<^verbatim>\<open>
  private isValidSuggestionResponse(data: any): data is SuggestionResponse {
      return (
          data &&
          Array.isArray(data.suggestions) &&
          data.metadata &&
          typeof data.metadata.processingTimeMs === 'number' &&
          typeof data.metadata.modelVersion === 'string' &&
          typeof data.metadata.cacheHit === 'boolean' &&
          typeof data.status === 'string'
      );
  }
  \<close>
\<close>

definition isValidSuggestionResponse :: "js_value \<Rightarrow> bool" where
  "isValidSuggestionResponse data =
     (truthy data \<and>
      isArray (js_prop ''suggestions'' data) \<and>
      truthy (js_prop ''metadata'' data) \<and>
      typeof (js_prop ''processingTimeMs'' (js_prop ''metadata'' data)) = ''number'' \<and>
      typeof (js_prop ''modelVersion'' (js_prop ''metadata'' data)) = ''string'' \<and>
      typeof (js_prop ''cacheHit'' (js_prop ''metadata'' data)) = ''boolean'' \<and>
      typeof (js_prop ''status'' data) = ''string'')"

text \<open>
  The outcome of \<^verbatim>\<open>await this.httpClient.post('/api/v1/completions', request)\<close>:
  the promise resolves with the body of a 2xx reply, or it rejects with an error (the
  HTTP client rejects a reply outside 2xx with \<^verbatim>\<open>error.response\<close> set).
\<close>

datatype http_outcome = Resolved js_value | Rejected CaughtError

text \<open>
  The \<^verbatim>\<open>try\<close> block of \<open>getSuggestions\<close> (lines 68 to 104): a thrown value is
  \<open>Inl\<close>. Building the request reads the configuration only and does not enter the
  returned value. TypeScript's annotation \<^verbatim>\<open>AxiosResponse<SuggestionResponse>\<close> is
  erased at run time; \<open>typed\<close> is the record view of a body that passed the guard, and
  \<open>processingTime\<close> is the difference of the two readings of the clock.
\<close>

definition getSuggestions_try ::
  "(js_value \<Rightarrow> SuggestionResponse) \<Rightarrow> CodeContext \<Rightarrow> http_outcome \<Rightarrow> int
     \<Rightarrow> CaughtError + SuggestionResponse" where
  "getSuggestions_try typed ctx outcome processingTime =
     (let lang = detectLanguage ctx in
      case outcome of
        Rejected e \<Rightarrow> Inl e
      | Resolved data \<Rightarrow>
          if \<not> isValidSuggestionResponse data
          then Inl (plain_Error ''Invalid response format from API'')
          else Inr ((typed data)
                 \<lparr> metadata := (metadata (typed data))
                      \<lparr> processingTimeMs := processingTime,
                        languageDetected := Some lang \<rparr> \<rparr>))"

text \<open>
  \<^verbatim>\<open>
  } catch (error: any) {
      console.error('API call failed:', error);
      return {
          suggestions: [],
          metadata: { processingTimeMs: 0, modelVersion: 'unknown', cacheHit: false,
                      contextHash: '', languageDetected: this.detectLanguage(context) },
          status: 'error',
          errorMessage: this.getErrorMessage(error)
      };
  }
  \<close>
\<close>

definition errorResponse :: "CodeContext \<Rightarrow> CaughtError \<Rightarrow> SuggestionResponse" where
  "errorResponse ctx e =
     \<lparr> suggestions = [],
       metadata = \<lparr> processingTimeMs = 0, modelVersion = ''unknown'', cacheHit = False,
                    contextHash = [], languageDetected = Some (detectLanguage ctx),
                    configUsed = None, modelType = None \<rparr>,
       status = Error,
       errorMessage = Some (getErrorMessage e) \<rparr>"

text \<open>
  \<open>getSuggestions\<close> itself. Its result is a sum so that an exception leaving the
  function would be an \<open>Inl\<close>: the handler builds a record from total functions, so the
  model has no such branch.
\<close>

definition getSuggestions ::
  "(js_value \<Rightarrow> SuggestionResponse) \<Rightarrow> CodeContext \<Rightarrow> http_outcome \<Rightarrow> int
     \<Rightarrow> js_error + SuggestionResponse" where
  "getSuggestions typed ctx outcome processingTime =
     (case getSuggestions_try typed ctx outcome processingTime of
        Inr response \<Rightarrow> Inr response
      | Inl e \<Rightarrow> Inr (errorResponse ctx e))"

section \<open>The statistics recorder (StatisticsManager, statistics_manager.ts)\<close>

text \<open>
  Counters are natural numbers; averages are rationals. \<open>responseTimes\<close> is the rolling
  window of the class, kept beside the \<^verbatim>\<open>CompletionStats\<close> object.
\<close>

record LanguageStat =
  ls_requests :: nat
  ls_suggestions :: nat
  ls_accepted :: nat
  ls_avgResponseTime :: rat

record DailyStat =
  ds_requests :: nat
  ds_accepted :: nat

record CompletionStats =
  totalRequests :: nat
  totalSuggestions :: nat
  acceptedSuggestions :: nat
  cacheHits :: nat
  averageResponseTime :: rat
  errorCount :: nat
  languageStats :: "string \<rightharpoonup> LanguageStat"
  dailyStats :: "string \<rightharpoonup> DailyStat"
  sessionStartTime :: int

record StatisticsManager =
  stats :: CompletionStats
  responseTimes :: "rat list"

definition maxResponseTimeHistory :: nat where
  "maxResponseTimeHistory = 100"

text \<open>
  \<^verbatim>\<open>recordCompletion\<close> (lines 63 to 108). \<open>today\<close> is
  \<^verbatim>\<open>new Date().toISOString().split('T')[0]\<close>, read from the clock.
\<close>

definition recordCompletion ::
  "string \<Rightarrow> nat \<Rightarrow> rat \<Rightarrow> bool \<Rightarrow> string \<Rightarrow> StatisticsManager \<Rightarrow> StatisticsManager" where
  "recordCompletion lang suggestionCount responseTime hit today sm =
     (let st = stats sm;
          times1 = responseTimes sm @ [responseTime];
          times = (if length times1 > maxResponseTimeHistory then tl times1 else times1);
          langStats0 = (case languageStats st lang of
                          None \<Rightarrow> \<lparr> ls_requests = 0, ls_suggestions = 0, ls_accepted = 0,
                                     ls_avgResponseTime = 0 \<rparr>
                        | Some l \<Rightarrow> l);
          requests = ls_requests langStats0 + 1;
          langStats = langStats0
            \<lparr> ls_requests := requests,
              ls_suggestions := ls_suggestions langStats0 + suggestionCount,
              ls_avgResponseTime :=
                (ls_avgResponseTime langStats0 * (of_nat requests - 1) + responseTime)
                  / of_nat requests \<rparr>;
          day0 = (case dailyStats st today of
                    None \<Rightarrow> \<lparr> ds_requests = 0, ds_accepted = 0 \<rparr>
                  | Some d \<Rightarrow> d);
          day = day0 \<lparr> ds_requests := ds_requests day0 + 1 \<rparr>
      in sm \<lparr> stats := st
                \<lparr> totalRequests := totalRequests st + 1,
                  totalSuggestions := totalSuggestions st + suggestionCount,
                  cacheHits := (if hit then cacheHits st + 1 else cacheHits st),
                  averageResponseTime := sum_list times / of_nat (length times),
                  languageStats := (languageStats st)(lang \<mapsto> langStats),
                  dailyStats := (dailyStats st)(today \<mapsto> day) \<rparr>,
              responseTimes := times \<rparr>)"

text \<open>
  \<^verbatim>\<open>
  public recordCacheHit(): void { this.stats.cacheHits++; }
  public recordError(errorType: string): void { this.stats.errorCount++; }
  \<close>
\<close>

definition recordCacheHit :: "StatisticsManager \<Rightarrow> StatisticsManager" where
  "recordCacheHit sm = sm \<lparr> stats := (stats sm) \<lparr> cacheHits := cacheHits (stats sm) + 1 \<rparr> \<rparr>"

definition recordError :: "string \<Rightarrow> StatisticsManager \<Rightarrow> StatisticsManager" where
  "recordError errorType sm =
     sm \<lparr> stats := (stats sm) \<lparr> errorCount := errorCount (stats sm) + 1 \<rparr> \<rparr>"

text \<open>
  \<^verbatim>\<open>
  public getAcceptanceRate(): number {
      if (this.stats.totalSuggestions === 0) { return 0; }
      return (this.stats.acceptedSuggestions / this.stats.totalSuggestions) * 100;
  }
  public getCacheHitRate(): number {
      if (this.stats.totalRequests === 0) { return 0; }
      return (this.stats.cacheHits / this.stats.totalRequests) * 100;
  }
  \<close>
\<close>

definition getAcceptanceRate :: "StatisticsManager \<Rightarrow> js_number" where
  "getAcceptanceRate sm =
     (if totalSuggestions (stats sm) = 0 then Num 0
      else js_times (js_div (of_nat (acceptedSuggestions (stats sm)))
                            (of_nat (totalSuggestions (stats sm)))) 100)"

definition getCacheHitRate :: "StatisticsManager \<Rightarrow> js_number" where
  "getCacheHitRate sm =
     (if totalRequests (stats sm) = 0 then Num 0
      else js_times (js_div (of_nat (cacheHits (stats sm)))
                            (of_nat (totalRequests (stats sm)))) 100)"

section \<open>The completion pipeline (CompletionProvider.provideCompletionItems)\<close>

text \<open>
  The fields of the class: the cache, the single-flight flag, the per-language table
  and the statistics recorder it writes to.
\<close>

record ProviderState =
  cache :: "(string, SuggestionResponse) js_map"
  isProcessing :: bool
  languageConfigs :: "(string, LanguageConfig) js_map"
  statsManager :: StatisticsManager

text \<open>The table of \<^verbatim>\<open>initializeLanguageConfigs\<close> (lines 96 to 185), in its order.\<close>

definition defaultConfigs :: "(string, LanguageConfig) js_map" where
  "defaultConfigs =
     [(''python'',
         \<lparr> maxTokens = 150, temperature = 6 / 10, topP = 85 / 100, cfg_contextWindow = 2048,
           commentStyle = ''#'', cfg_indentStyle = Spaces, cfg_indentSize = 4,
           fileExtensions = [''.py'', ''.pyx'', ''.pyi''] \<rparr>),
      (''javascript'',
         \<lparr> maxTokens = 120, temperature = 7 / 10, topP = 9 / 10, cfg_contextWindow = 1536,
           commentStyle = ''//'', cfg_indentStyle = Spaces, cfg_indentSize = 2,
           fileExtensions = [''.js'', ''.jsx'', ''.mjs''] \<rparr>),
      (''typescript'',
         \<lparr> maxTokens = 120, temperature = 7 / 10, topP = 9 / 10, cfg_contextWindow = 1536,
           commentStyle = ''//'', cfg_indentStyle = Spaces, cfg_indentSize = 2,
           fileExtensions = [''.ts'', ''.tsx''] \<rparr>),
      (''java'',
         \<lparr> maxTokens = 140, temperature = 6 / 10, topP = 85 / 100, cfg_contextWindow = 1800,
           commentStyle = ''//'', cfg_indentStyle = Spaces, cfg_indentSize = 4,
           fileExtensions = [''.java''] \<rparr>),
      (''cpp'',
         \<lparr> maxTokens = 130, temperature = 6 / 10, topP = 85 / 100, cfg_contextWindow = 1800,
           commentStyle = ''//'', cfg_indentStyle = Spaces, cfg_indentSize = 4,
           fileExtensions = [''.cpp'', ''.cc'', ''.cxx'', ''.c++''] \<rparr>),
      (''c'',
         \<lparr> maxTokens = 130, temperature = 6 / 10, topP = 85 / 100, cfg_contextWindow = 1800,
           commentStyle = ''//'', cfg_indentStyle = Spaces, cfg_indentSize = 4,
           fileExtensions = [''.c'', ''.h''] \<rparr>),
      (''go'',
         \<lparr> maxTokens = 120, temperature = 6 / 10, topP = 85 / 100, cfg_contextWindow = 1600,
           commentStyle = ''//'', cfg_indentStyle = Tabs, cfg_indentSize = 1,
           fileExtensions = [''.go''] \<rparr>),
      (''rust'',
         \<lparr> maxTokens = 140, temperature = 6 / 10, topP = 85 / 100, cfg_contextWindow = 1800,
           commentStyle = ''//'', cfg_indentStyle = Spaces, cfg_indentSize = 4,
           fileExtensions = [''.rs''] \<rparr>)]"

text \<open>A provider as its constructor leaves it, around a given statistics recorder.\<close>

definition newProvider :: "StatisticsManager \<Rightarrow> ProviderState" where
  "newProvider sm =
     \<lparr> cache = [], isProcessing = False, languageConfigs = defaultConfigs, statsManager = sm \<rparr>"

text \<open>
  What one call reads from its surroundings: the \<^verbatim>\<open>enabled\<close> setting, the
  document's language and file name, the outcome of
  \<^verbatim>\<open>contextExtractor.extractContext(document, position)\<close> (a thrown value is \<open>Inl\<close>)
  and the clock.
\<close>

record Trigger =
  t_enabled :: bool
  t_languageId :: string
  t_fileName :: string
  t_extracted :: "js_error + CodeContext"
  t_now :: int

text \<open>
  \<^verbatim>\<open>
  private enhanceContextWithLanguageInfo(context: CodeContext, document: vscode.TextDocument): CodeContext {
      const language = document.languageId;
      const fileExtension = document.fileName.split('.').pop();
      const languageConfig = this.languageConfigs.get(language);
      return {
          ...context,
          language,
          fileExtension: fileExtension ? `.${fileExtension}` : undefined,
          indentStyle: languageConfig?.indentStyle || 'spaces',
          indentSize: languageConfig?.indentSize || 4,
          contextWindow: languageConfig?.contextWindow || 1024
      };
  }
  \<close>
\<close>

definition enhanceContextWithLanguageInfo ::
  "(string, LanguageConfig) js_map \<Rightarrow> CodeContext \<Rightarrow> string \<Rightarrow> string \<Rightarrow> CodeContext" where
  "enhanceContextWithLanguageInfo cfgs ctx languageId fileName =
     (let ext = last (split_on (CHR ''.'') fileName);
          languageConfig = map_get languageId cfgs
      in ctx \<lparr> language := languageId,
               fileExtension := (if ext = [] then None else Some (''.'' @ ext)),
               indentStyle := Some (case languageConfig of
                                      None \<Rightarrow> Spaces
                                    | Some c \<Rightarrow> cfg_indentStyle c),
               indentSize := Some (case languageConfig of
                                     None \<Rightarrow> 4
                                   | Some c \<Rightarrow>
                                       if cfg_indentSize c = 0 then 4 else cfg_indentSize c),
               contextWindow := Some (case languageConfig of
                                        None \<Rightarrow> 1024
                                      | Some c \<Rightarrow>
                                          if cfg_contextWindow c = 0 then 1024
                                          else cfg_contextWindow c) \<rparr>)"

definition isLanguageSupported :: "(string, LanguageConfig) js_map \<Rightarrow> string \<Rightarrow> bool" where
  "isLanguageSupported cfgs lang = (map_get lang cfgs \<noteq> None)"

text \<open>
  \<^verbatim>\<open>provideCompletionItems\<close> (lines 187 to 260) is asynchronous with one
  suspension point, the \<^verbatim>\<open>await this.apiClient.getSuggestions(codeContext)\<close> of line
  230. It is embedded as two state transformers. \<open>provideCompletionItems_start\<close> runs
  from the call to the first \<^verbatim>\<open>return\<close> or to the \<^verbatim>\<open>await\<close>; at the await it
  yields \<open>Awaiting\<close> with the locals the continuation needs, and the network call is
  made. \<open>provideCompletionItems_resume\<close> runs the continuation on the state the
  provider has when the response arrives. \<open>after_return\<close> is the \<^verbatim>\<open>finally\<close> block,
  \<open>after_exception\<close> the \<^verbatim>\<open>catch\<close> block followed by it.
\<close>

record Pending =
  p_startTime :: int
  p_codeContext :: CodeContext
  p_contextHash :: string

datatype start_result = Returned "CompletionItem list" | Awaiting Pending

definition after_return :: "ProviderState \<Rightarrow> ProviderState" where
  "after_return s = s \<lparr> isProcessing := False \<rparr>"

definition after_exception :: "ProviderState \<Rightarrow> ProviderState" where
  "after_exception s =
     after_return (s \<lparr> statsManager := recordError ''provider_error'' (statsManager s) \<rparr>)"

definition provideCompletionItems_start ::
  "(string \<Rightarrow> string) \<Rightarrow> Trigger \<Rightarrow> ProviderState \<Rightarrow> start_result \<times> ProviderState" where
  "provideCompletionItems_start md5 t s =
     (if \<not> t_enabled t then (Returned [], s)
      else if isProcessing s then (Returned [], s)
      else
        (let s1 = s \<lparr> isProcessing := True \<rparr>;
             startTime = t_now t
         in case t_extracted t of
              Inl e \<Rightarrow> (Returned [], after_exception s1)
            | Inr extracted \<Rightarrow>
                (let codeContext = enhanceContextWithLanguageInfo (languageConfigs s1)
                                     extracted (t_languageId t) (t_fileName t)
                 in if \<not> isLanguageSupported (languageConfigs s1) (language codeContext)
                    then (Returned [], after_return s1)
                    else
                      (let contextHash = generateContextHash md5 codeContext;
                           dispatch = (Awaiting \<lparr> p_startTime = startTime,
                                                   p_codeContext = codeContext,
                                                   p_contextHash = contextHash \<rparr>, s1)
                       in case map_get contextHash (cache s1) of
                            None \<Rightarrow> dispatch
                          | Some cachedResponse \<Rightarrow>
                              if status cachedResponse = Success
                              then
                                (let s2 = s1 \<lparr> statsManager := recordCacheHit (statsManager s1) \<rparr>
                                 in case convertToCompletionItems (languageConfigs s2)
                                           (suggestions cachedResponse) codeContext of
                                      Inl e \<Rightarrow> (Returned [], after_exception s2)
                                    | Inr items \<Rightarrow> (Returned items, after_return s2))
                              else dispatch))))"

text \<open>
  The clock readings of the continuation: \<^verbatim>\<open>Date.now()\<close> of line 238 and the day
  \<open>recordCompletion\<close> files the request under.
\<close>

record ResumeClock =
  r_now :: int
  r_today :: string

definition provideCompletionItems_resume ::
  "Pending \<Rightarrow> SuggestionResponse \<Rightarrow> ResumeClock \<Rightarrow> ProviderState
     \<Rightarrow> CompletionItem list \<times> ProviderState" where
  "provideCompletionItems_resume p response clock s =
     (if status response = Success
      then
        (let s1 = s \<lparr> cache := cache_insert (cache s) (p_contextHash p, response) \<rparr>;
             processingTime = r_now clock - p_startTime p;
             s2 = s1 \<lparr> statsManager :=
                         recordCompletion (language (p_codeContext p))
                           (length (suggestions response)) (of_int processingTime)
                           (cacheHit (metadata response)) (r_today clock) (statsManager s1) \<rparr>
         in case convertToCompletionItems (languageConfigs s2) (suggestions response)
                   (p_codeContext p) of
              Inl e \<Rightarrow> ([], after_exception s2)
            | Inr items \<Rightarrow> (items, after_return s2))
      else
        ([], after_return (s \<lparr> statsManager := recordError ''api_error'' (statsManager s) \<rparr>)))"

text \<open>
  \<^verbatim>\<open>public clearCache(): void { this.cache.clear(); }\<close>
\<close>

definition clearCache :: "ProviderState \<Rightarrow> ProviderState" where
  "clearCache s = s \<lparr> cache := [] \<rparr>"

text \<open>
  The states of a provider: the state its constructor builds, and every state that a
  part of a call or the clear-cache command makes of one. The table of languages
  (\<^verbatim>\<open>updateLanguageConfig\<close>) and the statistics recorder (an object of its own, also
  written by the acceptance command) may change in any way between calls.
\<close>

inductive reachable :: "(string \<Rightarrow> string) \<Rightarrow> ProviderState \<Rightarrow> bool"
  for md5 :: "string \<Rightarrow> string" where
  reachable_new: "reachable md5 (newProvider sm)"
| reachable_start:
    "reachable md5 s \<Longrightarrow> reachable md5 (snd (provideCompletionItems_start md5 t s))"
| reachable_resume:
    "reachable md5 s \<Longrightarrow>
     reachable md5 (snd (provideCompletionItems_resume p response clock s))"
| reachable_clear: "reachable md5 s \<Longrightarrow> reachable md5 (clearCache s)"
| reachable_other:
    "reachable md5 s \<Longrightarrow> reachable md5 (s \<lparr> languageConfigs := cfgs, statsManager := sm \<rparr>)"

section \<open>Concrete inputs\<close>

text \<open>
  The inputs at which the theorems below are instantiated. \<open>digest0\<close> stands in for
  the digest in concrete runs: any function from strings to strings can take the place
  of \<open>md5\<close>, and the identity keeps the keys readable.
\<close>

definition digest0 :: "string \<Rightarrow> string" where
  "digest0 s = s"

definition pythonConfig :: LanguageConfig where
  "pythonConfig =
     \<lparr> maxTokens = 150, temperature = 6 / 10, topP = 85 / 100, cfg_contextWindow = 2048,
       commentStyle = ''#'', cfg_indentStyle = Spaces, cfg_indentSize = 4,
       fileExtensions = [''.py'', ''.pyx'', ''.pyi''] \<rparr>"

text \<open>
  The context of the specification's scenario A, as the extractor delivers it, and a
  second context of a later trigger in the same function: other cursor position, other
  imports and variables, an older line scrolled out of the last ten.
\<close>

definition lastTenLines :: "string list" where
  "lastTenLines =
     [''def fibonacci(n):'', ''    if n < 0:'', ''        raise ValueError(n)'',
      ''    if n == 0:'', ''        return 0'', ''    if n == 1:'', ''        return 1'',
      ''    a = fibonacci(n - 1)'', ''    b = fibonacci(n - 2)'', ''    # sum'']"

definition exampleContext :: CodeContext where
  "exampleContext =
     \<lparr> currentLine = ''    return '',
       filePath = None,
       previousLines = ''import os'' # lastTenLines,
       position = (11, 11),
       language = ''python'',
       functionContext = Some \<lparr> fn_name = ''fibonacci'', fn_parameters = [''n''],
                                 fn_returnType = None \<rparr>,
       classContext = None,
       ctx_imports = [''import os''],
       variables = [],
       fileExtension = None,
       indentStyle = None,
       indentSize = None,
       contextWindow = None \<rparr>"

definition exampleContext' :: CodeContext where
  "exampleContext' =
     \<lparr> currentLine = ''    return '',
       filePath = Some ''/tmp/fib.py'',
       previousLines = ''import sys'' # ''import os'' # lastTenLines,
       position = (12, 11),
       language = ''python'',
       functionContext = Some \<lparr> fn_name = ''fibonacci'', fn_parameters = [''n''],
                                 fn_returnType = None \<rparr>,
       classContext = None,
       ctx_imports = [''import sys'', ''import os''],
       variables = [\<lparr> var_name = ''a'', var_type = ''unknown'', var_scope = LocalScope \<rparr>],
       fileExtension = None,
       indentStyle = None,
       indentSize = None,
       contextWindow = None \<rparr>"

definition exampleTrigger :: Trigger where
  "exampleTrigger =
     \<lparr> t_enabled = True, t_languageId = ''python'', t_fileName = ''fib.py'',
       t_extracted = Inr exampleContext, t_now = 1000 \<rparr>"

definition exampleTrigger' :: Trigger where
  "exampleTrigger' =
     \<lparr> t_enabled = True, t_languageId = ''python'', t_fileName = ''fib.py'',
       t_extracted = Inr exampleContext', t_now = 1005 \<rparr>"

definition exampleClock :: ResumeClock where
  "exampleClock = \<lparr> r_now = 1200, r_today = ''2025-01-01'' \<rparr>"

text \<open>
  A multi-line suggestion text, two suggestions, a successful response of the service
  (which reports \<^verbatim>\<open>cacheHit: false\<close>) and the statistics of a first start
  (\<^verbatim>\<open>loadStatistics\<close> without saved state).
\<close>

definition exampleSuggestionText :: string where
  "exampleSuggestionText =
     ''if n < 2:'' @ [CHR 0x0A] @ ''        return n'' @ [CHR 0x0A] @ ''return 0''"

definition suggestionSure :: Suggestion where
  "suggestionSure =
     \<lparr> s_text = ''fibonacci(n - 1) + fibonacci(n - 2)'', confidence = 1,
       s_type = SingleLine, description = None, cursorOffset = 0, replaceRange = None,
       languageSpecific = Some True, formattingApplied = None \<rparr>"

definition suggestionLessSure :: Suggestion where
  "suggestionLessSure =
     \<lparr> s_text = ''a + b'', confidence = 15 / 16,
       s_type = SingleLine, description = None, cursorOffset = 0, replaceRange = None,
       languageSpecific = Some True, formattingApplied = None \<rparr>"

definition exampleResponse :: SuggestionResponse where
  "exampleResponse =
     \<lparr> suggestions = [suggestionSure, suggestionLessSure],
       metadata = \<lparr> processingTimeMs = 180, modelVersion = ''codegpt-1'', cacheHit = False,
                    contextHash = ''abc'', languageDetected = Some ''python'',
                    configUsed = None, modelType = None \<rparr>,
       status = Success,
       errorMessage = None \<rparr>"

definition freshStatistics :: StatisticsManager where
  "freshStatistics =
     \<lparr> stats = \<lparr> totalRequests = 0, totalSuggestions = 0, acceptedSuggestions = 0,
                 cacheHits = 0, averageResponseTime = 0, errorCount = 0,
                 languageStats = Map.empty, dailyStats = Map.empty,
                 sessionStartTime = 0 \<rparr>,
       responseTimes = [] \<rparr>"

text \<open>
  Errors as the handler of \<open>getSuggestions\<close> catches them: a reply with status 500; a
  request that got no reply; the error of a request whose time-out (the 10 seconds of
  \<^verbatim>\<open>requestTimeout\<close>) expired, raised by the HTTP client with the request object
  attached and the code \<^verbatim>\<open>ECONNABORTED\<close>; and a body that is no SuggestionResponse.
  \<open>typedView\<close> is the record view of a body in the concrete runs; they are failures,
  where no body is viewed.
\<close>

definition error500 :: CaughtError where
  "error500 =
     \<lparr> err_response = Some \<lparr> er_status = 500, er_data_message = None,
                             er_statusText = ''Internal Server Error'' \<rparr>,
       err_request = True, err_code = Some ''ERR_BAD_RESPONSE'',
       err_message = ''Request failed with status code 500'' \<rparr>"

definition errorNoResponse :: CaughtError where
  "errorNoResponse =
     \<lparr> err_response = None, err_request = True, err_code = Some ''ECONNREFUSED'',
       err_message = ''connect ECONNREFUSED 127.0.0.1:8000'' \<rparr>"

definition errorTimeout :: CaughtError where
  "errorTimeout =
     \<lparr> err_response = None, err_request = True, err_code = Some ''ECONNABORTED'',
       err_message = ''timeout of 10000ms exceeded'' \<rparr>"

definition malformedBody :: js_value where
  "malformedBody = VObject [(''suggestions'', VString ''none''), (''status'', VString ''success'')]"

definition typedView :: "js_value \<Rightarrow> SuggestionResponse" where
  "typedView data = exampleResponse"

text \<open>
  The run the scenarios start from: the first trigger on a new provider reaches the
  await (\<open>examplePending\<close>, \<open>exampleInFlight\<close>); \<open>exampleFailure\<close> is what the
  dispatcher returns for a reply with status 500, and \<open>exampleCached\<close> is the provider
  after the first trigger has resumed on the successful response.
\<close>

definition exampleEnhanced :: CodeContext where
  "exampleEnhanced =
     enhanceContextWithLanguageInfo defaultConfigs exampleContext ''python'' ''fib.py''"

definition examplePending :: Pending where
  "examplePending =
     \<lparr> p_startTime = 1000,
       p_codeContext = exampleEnhanced,
       p_contextHash = generateContextHash digest0 exampleEnhanced \<rparr>"

definition exampleInFlight :: ProviderState where
  "exampleInFlight = (newProvider freshStatistics) \<lparr> isProcessing := True \<rparr>"

definition exampleFailure :: SuggestionResponse where
  "exampleFailure = errorResponse exampleEnhanced error500"

definition exampleCached :: ProviderState where
  "exampleCached =
     snd (provideCompletionItems_resume examplePending exampleResponse exampleClock exampleInFlight)"

definition exampleItems :: "CompletionItem list" where
  "exampleItems =
     fst (provideCompletionItems_resume examplePending exampleResponse exampleClock exampleInFlight)"

definition exampleStatistics :: StatisticsManager where
  "exampleStatistics =
     \<lparr> stats = \<lparr> totalRequests = 2, totalSuggestions = 4, acceptedSuggestions = 3,
                 cacheHits = 1, averageResponseTime = 150, errorCount = 0,
                 languageStats = Map.empty, dailyStats = Map.empty,
                 sessionStartTime = 0 \<rparr>,
       responseTimes = [100, 200] \<rparr>"

section \<open>Properties\<close>

subsection \<open>The Map operations and the eviction step\<close>

lemma length_map_set: "length (map_set k v m) \<le> Suc (length m)"
  by (induction m) auto

lemma map_set_new_key: "k \<notin> fst ` set m \<Longrightarrow> map_set k v m = m @ [(k, v)]"
  by (induction m) auto

lemma keys_map_set: "set (map fst (map_set k v m)) = insert k (set (map fst m))"
  by (induction m) auto

lemma distinct_map_set: "distinct (map fst m) \<Longrightarrow> distinct (map fst (map_set k v m))"
proof (induction m)
  case Nil
  then show ?case by simp
next
  case (Cons e m)
  have "set (map fst (map_set k v m)) = insert k (set (map fst m))"
    by (rule keys_map_set)
  with Cons show ?case by auto
qed

lemma foldl_map_delete:
  "foldl (\<lambda>c key. map_delete key c) m ks = filter (\<lambda>e. fst e \<notin> set ks) m"
proof (induction ks arbitrary: m)
  case Nil
  then show ?case by simp
next
  case (Cons k ks)
  have "filter (\<lambda>e. fst e \<notin> set ks) (filter (\<lambda>e. fst e \<noteq> k) m)
        = filter (\<lambda>e. fst e \<notin> set (k # ks)) m"
    by (induction m) auto
  with Cons show ?case by (simp add: map_delete_def)
qed

lemma filter_take_keys_le:
  "length (filter (\<lambda>e. fst e \<notin> set (take n (map fst m))) m) \<le> length m - n"
proof -
  let ?P = "\<lambda>e. fst e \<notin> set (take n (map fst m))"
  have split: "m = take n m @ drop n m" by simp
  have "\<forall>e \<in> set (take n m). \<not> ?P e"
    by (auto simp: take_map)
  then have "filter ?P (take n m) = []"
    by (simp add: filter_empty_conv)
  then have "filter ?P m = filter ?P (drop n m)"
    by (metis split filter_append append_Nil)
  then have "length (filter ?P m) \<le> length (drop n m)"
    by (metis length_filter_le)
  then show ?thesis by simp
qed

lemma filter_take_keys_distinct:
  assumes "distinct (map fst m)"
  shows "filter (\<lambda>e. fst e \<notin> set (take n (map fst m))) m = drop n m"
proof -
  let ?P = "\<lambda>e. fst e \<notin> set (take n (map fst m))"
  have "\<forall>e \<in> set (take n m). \<not> ?P e"
    by (auto simp: take_map)
  then have a: "filter ?P (take n m) = []"
    by (simp add: filter_empty_conv)
  have "distinct (map fst (take n m) @ map fst (drop n m))"
    using assms by (metis append_take_drop_id map_append)
  then have "set (map fst (take n m)) \<inter> set (map fst (drop n m)) = {}"
    by simp
  then have "\<forall>e \<in> set (drop n m). ?P e"
    by (auto simp: take_map)
  then have b: "filter ?P (drop n m) = drop n m"
    by (simp add: filter_id_conv)
  have "filter ?P m = filter ?P (take n m) @ filter ?P (drop n m)"
    by (metis append_take_drop_id filter_append)
  with a b show ?thesis by simp
qed

lemma length_cleanupCache: "length m \<le> 101 \<Longrightarrow> length (cleanupCache m) \<le> 100"
proof (cases "length m > 100")
  case True
  assume "length m \<le> 101"
  have "length (filter (\<lambda>e. fst e \<notin> set (take 50 (map fst m))) m) \<le> length m - 50"
    by (rule filter_take_keys_le)
  with True \<open>length m \<le> 101\<close> show ?thesis
    by (simp add: cleanupCache_def map_size_def map_keys_def foldl_map_delete)
next
  case False
  then show ?thesis by (simp add: cleanupCache_def map_size_def)
qed

lemma length_cache_insert: "length c0 \<le> 100 \<Longrightarrow> length (cache_insert c0 kv) \<le> 100"
proof -
  assume "length c0 \<le> 100"
  moreover have "length (map_set (fst kv) (snd kv) c0) \<le> Suc (length c0)"
    by (rule length_map_set)
  ultimately have "length (map_set (fst kv) (snd kv) c0) \<le> 101" by simp
  then show ?thesis unfolding cache_insert_def by (rule length_cleanupCache)
qed

lemma length_foldl_cache_insert:
  "length c0 \<le> 100 \<Longrightarrow> length (foldl cache_insert c0 kvs) \<le> 100"
  by (induction kvs arbitrary: c0) (simp_all add: length_cache_insert)

lemma map_get_map_set: "map_get k (map_set k v m) = Some v"
  by (induction m) (auto simp: map_get_def)

lemma length_map_set_eq:
  "length (map_set k v m) = (if k \<in> fst ` set m then length m else Suc (length m))"
  by (induction m) auto

lemma map_of_filter_keys:
  "map_of (filter (\<lambda>e. Q (fst e)) m) k = (if Q k then map_of m k else None)"
  by (induction m) auto

lemma map_get_cache_insert:
  assumes "map_size m \<le> 100"
  shows "map_get k (cache_insert m (k, v)) = Some v"
proof (cases "length (map_set k v m) > 100")
  case False
  then show ?thesis
    by (simp add: cache_insert_def cleanupCache_def map_size_def map_get_map_set)
next
  case True
  have new: "k \<notin> fst ` set m"
  proof (rule ccontr)
    assume "\<not> k \<notin> fst ` set m"
    then have "length (map_set k v m) = length m"
      by (simp add: length_map_set_eq)
    with True assms show False by (simp add: map_size_def)
  qed
  have len: "length m = 100"
    using True assms new by (simp add: length_map_set_eq map_size_def)
  have ms: "map_set k v m = m @ [(k, v)]"
    using new by (rule map_set_new_key)
  have "set (take 50 (map fst (m @ [(k, v)]))) \<subseteq> fst ` set m"
    using len by (auto dest: in_set_takeD)
  then have "k \<notin> set (take 50 (map fst (m @ [(k, v)])))"
    using new by blast
  then have f: "map_of (filter (\<lambda>e. fst e \<notin> set (take 50 (map fst (m @ [(k, v)])))) (m @ [(k, v)])) k
             = map_of (m @ [(k, v)]) k"
    using map_of_filter_keys [of "\<lambda>x. x \<notin> set (take 50 (map fst (m @ [(k, v)])))" "m @ [(k, v)]" k]
    by (simp only: if_True not_False_eq_True)
  have g: "map_of (m @ [(k, v)]) k = Some v"
    using map_get_map_set [of k v m] unfolding ms map_get_def .
  have cc: "cleanupCache (m @ [(k, v)])
            = filter (\<lambda>e. fst e \<notin> set (take 50 (map fst (m @ [(k, v)])))) (m @ [(k, v)])"
    using len by (simp add: cleanupCache_def map_size_def map_keys_def foldl_map_delete Let_def)
  show ?thesis
    unfolding cache_insert_def fst_conv snd_conv ms cc map_get_def
    using f g by simp
qed

subsection \<open>The projection behind the fingerprint\<close>

lemma hashProjection_cong:
  assumes "currentLine a = currentLine b"
    and "slice_last 10 (previousLines a) = slice_last 10 (previousLines b)"
    and "language a = language b"
    and "functionContext a = functionContext b"
    and "classContext a = classContext b"
    and "fileExtension a = fileExtension b"
    and "indentStyle a = indentStyle b"
    and "indentSize a = indentSize b"
  shows "hashProjection a = hashProjection b"
  using assms by (simp add: hashProjection_def)

subsection \<open>Splitting, joining and re-indenting\<close>

lemma cons_to_first_not_Nil: "cons_to_first x ls \<noteq> []"
  by (cases ls) auto

lemma split_on_not_Nil: "split_on c s \<noteq> []"
  by (induction s) (auto simp: cons_to_first_not_Nil)

lemma join_split_on: "join_with [c] (split_on c s) = s"
proof (induction s)
  case Nil
  then show ?case by simp
next
  case (Cons x xs)
  obtain l ls where sp: "split_on c xs = l # ls"
    using split_on_not_Nil [of c xs] by (cases "split_on c xs") auto
  show ?case
  proof (cases "x = c")
    case True
    with Cons sp show ?thesis by simp
  next
    case False
    with Cons sp show ?thesis by (cases ls) auto
  qed
qed

lemma split_on_no_sep: "l \<in> set (split_on c s) \<Longrightarrow> c \<notin> set l"
proof (induction s arbitrary: l)
  case Nil
  then show ?case by simp
next
  case (Cons x xs)
  obtain l0 ls where sp: "split_on c xs = l0 # ls"
    using split_on_not_Nil [of c xs] by (cases "split_on c xs") auto
  show ?case
  proof (cases "x = c")
    case True
    with Cons show ?thesis by auto
  next
    case False
    with Cons.prems sp have "l = x # l0 \<or> l \<in> set ls" by auto
    then show ?thesis
    proof
      assume "l = x # l0"
      moreover have "c \<notin> set l0" using Cons.IH [of l0] sp by simp
      ultimately show ?thesis using False by auto
    next
      assume "l \<in> set ls"
      then show ?thesis using Cons.IH [of l] sp by simp
    qed
  qed
qed

lemma split_on_no_sep_line: "c \<notin> set l \<Longrightarrow> split_on c l = [l]"
  by (induction l) auto

lemma split_on_append_sep:
  "c \<notin> set l \<Longrightarrow> split_on c (l @ c # rest) = l # split_on c rest"
  by (induction l) auto

lemma split_on_join:
  "ls \<noteq> [] \<Longrightarrow> (\<And>l. l \<in> set ls \<Longrightarrow> c \<notin> set l) \<Longrightarrow> split_on c (join_with [c] ls) = ls"
proof (induction ls)
  case Nil
  then show ?case by simp
next
  case (Cons l ls)
  have l: "c \<notin> set l" using Cons.prems(2) by simp
  show ?case
  proof (cases ls)
    case Nil
    with l show ?thesis by (simp add: split_on_no_sep_line)
  next
    case (Cons l' ls')
    then have "split_on c (join_with [c] ls) = ls"
      using Cons.IH Cons.prems(2) by simp
    with Cons l show ?thesis
      by (simp add: split_on_append_sep)
  qed
qed

lemma reindent_tail:
  "length idxs = length ls \<Longrightarrow> 0 \<notin> set idxs \<Longrightarrow>
   map (\<lambda>(index, line). if index = (0::nat) then line else f line) (zip idxs ls) = map f ls"
  by (induction idxs ls rule: list_induct2) auto

lemma reindent_lines_Cons:
  "reindent_lines ind (l # ls) = l # map (replace_leading_space ind) ls"
proof -
  have a: "[0 ..< Suc (length ls)] = 0 # [Suc 0 ..< Suc (length ls)]"
    by (rule upt_conv_Cons) simp
  have b: "map (\<lambda>(index, line). if index = (0::nat) then line else replace_leading_space ind line)
             (zip [Suc 0 ..< Suc (length ls)] ls) = map (replace_leading_space ind) ls"
    by (rule reindent_tail) (simp_all del: upt_Suc)
  show ?thesis
    unfolding reindent_lines_def length_Cons a using b by simp
qed

lemma replace_leading_space_idem:
  "(\<And>x. x \<in> set ind \<Longrightarrow> isWhitespace x) \<Longrightarrow>
   replace_leading_space ind (replace_leading_space ind l) = replace_leading_space ind l"
  by (simp add: replace_leading_space_def dropWhile_append2)

lemma replace_leading_space_no_newline:
  "c \<notin> set ind \<Longrightarrow> c \<notin> set l \<Longrightarrow> c \<notin> set (replace_leading_space ind l)"
  by (auto simp: replace_leading_space_def dest: set_dropWhileD)

lemma indentChar_of_Inr:
  "indentChar_of config = Inr ind \<Longrightarrow>
   (\<forall>x \<in> set ind. isWhitespace x) \<and> CHR 0x0A \<notin> set ind"
  by (auto simp: indentChar_of_def repeat_str_def isWhitespace_def split: if_splits)

lemma indentChar_of_ok:
  "cfg_indentStyle config = Tabs \<or> 0 \<le> cfg_indentSize config \<Longrightarrow>
   indentChar_of config =
     Inr (if cfg_indentStyle config = Tabs then [CHR 0x09]
          else replicate (nat (cfg_indentSize config)) (CHR '' ''))"
  by (auto simp: indentChar_of_def repeat_str_def)

lemma formatSuggestionText_Some:
  assumes "indentChar_of config = Inr ind"
  shows "formatSuggestionText body ctx (Some config) =
           Inr (join_with [CHR 0x0A]
                  (hd (split_on (CHR 0x0A) body)
                   # map (replace_leading_space ind) (tl (split_on (CHR 0x0A) body))))"
proof -
  obtain l ls where sp: "split_on (CHR 0x0A) body = l # ls"
    using split_on_not_Nil [of "CHR 0x0A" body] by (cases "split_on (CHR 0x0A) body") auto
  have js: "join_with [CHR 0x0A] (l # ls) = body"
    using join_split_on [of "CHR 0x0A" body] sp by simp
  show ?thesis
  proof (cases ls)
    case Nil
    with sp js show ?thesis by (simp add: formatSuggestionText_def)
  next
    case (Cons l' ls')
    with sp assms show ?thesis
      by (simp add: formatSuggestionText_def reindent_lines_Cons)
  qed
qed

lemma formatSuggestionText_single_line:
  "CHR 0x0A \<notin> set body \<Longrightarrow> formatSuggestionText body ctx cfg = Inr body"
  by (cases cfg) (simp_all add: formatSuggestionText_def split_on_no_sep_line)

lemma formatSuggestionText_idem:
  assumes "formatSuggestionText body ctx cfg = Inr out"
  shows "formatSuggestionText out ctx' cfg = Inr out"
proof (cases cfg)
  case None
  with assms show ?thesis by (simp add: formatSuggestionText_def)
next
  case (Some config)
  obtain l ls where sp: "split_on (CHR 0x0A) body = l # ls"
    using split_on_not_Nil [of "CHR 0x0A" body] by (cases "split_on (CHR 0x0A) body") auto
  show ?thesis
  proof (cases ls)
    case Nil
    with sp assms Some have "out = body" by (simp add: formatSuggestionText_def)
    with sp Nil Some show ?thesis by (simp add: formatSuggestionText_def)
  next
    case (Cons l' ls')
    with sp assms Some obtain ind where ind: "indentChar_of config = Inr ind"
      by (cases "indentChar_of config") (auto simp: formatSuggestionText_def)
    let ?f = "replace_leading_space ind"
    have ws: "\<And>x. x \<in> set ind \<Longrightarrow> isWhitespace x" and nl: "CHR 0x0A \<notin> set ind"
      using indentChar_of_Inr [OF ind] by auto
    have out: "out = join_with [CHR 0x0A] (l # map ?f ls)"
      using formatSuggestionText_Some [OF ind, of body ctx] assms Some sp by simp
    have lines: "\<And>x. x \<in> set (l # ls) \<Longrightarrow> CHR 0x0A \<notin> set x"
      using split_on_no_sep [of _ "CHR 0x0A" body] sp by simp
    have "\<And>x. x \<in> set (l # map ?f ls) \<Longrightarrow> CHR 0x0A \<notin> set x"
      using lines nl by (auto simp: replace_leading_space_no_newline)
    then have sp': "split_on (CHR 0x0A) out = l # map ?f ls"
      unfolding out by (intro split_on_join) auto
    have mm: "map ?f (map ?f ls) = map ?f ls"
      using ws by (simp add: replace_leading_space_idem)
    have "formatSuggestionText out ctx' (Some config)
            = Inr (join_with [CHR 0x0A] (l # map ?f (map ?f ls)))"
      using formatSuggestionText_Some [OF ind, of out ctx'] sp' by (simp del: map_map)
    then show ?thesis
      by (simp only: mm out Some)
  qed
qed


subsection \<open>Sort texts\<close>

text \<open>
  A number below 10000, padded to four places, reads digit by digit; two such strings
  compare as the numbers do.
\<close>

lemma digit_code: "d < 10 \<Longrightarrow> (of_char (''0123456789'' ! d) :: nat) = 48 + d"
proof -
  assume "d < 10"
  then have "d \<in> {0, 1, 2, 3, 4, 5, 6, 7, 8, 9}" by auto
  then show ?thesis by auto
qed

lemma string_of_nat_small: "n < 10 \<Longrightarrow> string_of_nat n = [''0123456789'' ! n]"
  by (subst string_of_nat.simps) simp

lemma string_of_nat_step:
  "10 \<le> n \<Longrightarrow> string_of_nat n = string_of_nat (n div 10) @ [''0123456789'' ! (n mod 10)]"
  by (subst string_of_nat.simps) simp


lemma replicate_small:
  "replicate 3 x = [x, x, x]" "replicate 2 x = [x, x]" "replicate (Suc 0) x = [x]"
  by (simp_all add: numeral_3_eq_3 numeral_2_eq_2)

lemma pad4:
  assumes "n < 10000"
  shows "padStart 4 (CHR ''0'') (string_of_nat n)
         = [''0123456789'' ! (n div 1000), ''0123456789'' ! (n div 100 mod 10),
            ''0123456789'' ! (n div 10 mod 10), ''0123456789'' ! (n mod 10)]"
proof -
  let ?dg = "\<lambda>d::nat. ''0123456789'' ! d"
  have zero: "?dg 0 = CHR ''0''" by simp
  have d100: "n div 10 div 10 = n div 100" by (simp add: div_mult2_eq)
  have d1000: "n div 100 div 10 = n div 1000" by (simp add: div_mult2_eq)
  consider "n < 10" | "10 \<le> n" "n < 100" | "100 \<le> n" "n < 1000" | "1000 \<le> n"
    by linarith
  then show ?thesis
  proof cases
    case 1
    have s: "string_of_nat n = [?dg n]" using 1 by (rule string_of_nat_small)
    have z: "n div 1000 = 0" "n div 100 = 0" "n div 10 = 0" "n mod 10 = n" using 1 by simp_all
    show ?thesis unfolding s z padStart_def by (simp add: replicate_small)
  next
    case 2
    have s1: "string_of_nat n = string_of_nat (n div 10) @ [?dg (n mod 10)]"
      using 2(1) by (rule string_of_nat_step)
    have s2: "string_of_nat (n div 10) = [?dg (n div 10)]"
      using 2(2) by (intro string_of_nat_small) simp
    have z: "n div 1000 = 0" "n div 100 = 0" "n div 10 mod 10 = n div 10" using 2 by simp_all
    show ?thesis unfolding s1 s2 z padStart_def by (simp add: replicate_small)
  next
    case 3
    have s1: "string_of_nat n = string_of_nat (n div 10) @ [?dg (n mod 10)]"
      using 3(1) by (intro string_of_nat_step) simp
    have s2: "string_of_nat (n div 10) = string_of_nat (n div 100) @ [?dg (n div 10 mod 10)]"
      using 3(1) string_of_nat_step [of "n div 10"] d100 by simp
    have s3: "string_of_nat (n div 100) = [?dg (n div 100)]"
      using 3(2) by (intro string_of_nat_small) simp
    have z: "n div 1000 = 0" "n div 100 mod 10 = n div 100" using 3 by simp_all
    show ?thesis unfolding s1 s2 s3 z padStart_def by (simp add: replicate_small)
  next
    case 4
    have s1: "string_of_nat n = string_of_nat (n div 10) @ [?dg (n mod 10)]"
      using 4 by (intro string_of_nat_step) simp
    have s2: "string_of_nat (n div 10) = string_of_nat (n div 100) @ [?dg (n div 10 mod 10)]"
      using 4 string_of_nat_step [of "n div 10"] d100 by simp
    have s3: "string_of_nat (n div 100) = string_of_nat (n div 1000) @ [?dg (n div 100 mod 10)]"
      using 4 string_of_nat_step [of "n div 100"] d1000 by simp
    have s4: "string_of_nat (n div 1000) = [?dg (n div 1000)]"
      using assms by (intro string_of_nat_small) simp
    show ?thesis unfolding s1 s2 s3 s4 padStart_def by simp
  qed
qed


lemma digit_inj:
  assumes "d < 10" and "e < 10"
  shows "(''0123456789'' ! d = ''0123456789'' ! e) = (d = e)"
proof
  assume eq: "''0123456789'' ! d = ''0123456789'' ! e"
  have "48 + d = (of_char (''0123456789'' ! d) :: nat)"
    using assms(1) by (rule digit_code [symmetric])
  also have "\<dots> = of_char (''0123456789'' ! e)"
    by (simp only: eq)
  also have "\<dots> = 48 + e"
    using assms(2) by (rule digit_code)
  finally show "d = e" by simp
next
  assume "d = e"
  then show "''0123456789'' ! d = ''0123456789'' ! e" by (simp only:)
qed

lemma decimal_digits:
  "(n::nat) = n div 1000 * 1000 + n div 100 mod 10 * 100 + n div 10 mod 10 * 10 + n mod 10"
proof -
  have d100: "n div 10 div 10 = n div 100" by (simp add: div_mult2_eq)
  have d1000: "n div 100 div 10 = n div 1000" by (simp add: div_mult2_eq)
  have a: "n div 10 * 10 + n mod 10 = n"
    by (rule div_mult_mod_eq)
  have b: "n div 100 * 10 + n div 10 mod 10 = n div 10"
    using div_mult_mod_eq [of "n div 10" 10] unfolding d100 .
  have c: "n div 1000 * 10 + n div 100 mod 10 = n div 100"
    using div_mult_mod_eq [of "n div 100" 10] unfolding d1000 .
  from a b c show ?thesis by linarith
qed

lemma lex_less:
  fixes p q x y m :: nat
  assumes "p < q" and "x < m"
  shows "p * m + x < q * m + y"
proof -
  have "Suc p * m \<le> q * m"
    using assms(1) by (intro mult_le_mono1) simp
  moreover have "p * m + x < Suc p * m"
    using assms(2) by simp
  ultimately show ?thesis by linarith
qed

lemma lex_step:
  fixes p q x y m :: nat
  assumes "x < m" and "y < m"
  shows "(p < q \<or> (p = q \<and> x < y)) = (p * m + x < q * m + y)"
proof (cases p q rule: linorder_cases)
  case less
  then show ?thesis using lex_less [OF less assms(1), of y] by simp
next
  case equal
  then show ?thesis by simp
next
  case greater
  have "q * m + y < p * m + x"
    using greater assms(2) by (rule lex_less)
  then show ?thesis using greater by simp
qed

lemma lex_digits:
  fixes a3 a2 a1 a0 b3 b2 b1 b0 :: nat
  assumes "a2 < 10" "a1 < 10" "a0 < 10" "b2 < 10" "b1 < 10" "b0 < 10"
  shows "(a3 < b3 \<or> (a3 = b3 \<and> (a2 < b2 \<or> (a2 = b2 \<and> (a1 < b1 \<or> (a1 = b1 \<and> a0 < b0))))))
         = (a3 * 1000 + a2 * 100 + a1 * 10 + a0 < b3 * 1000 + b2 * 100 + b1 * 10 + b0)"
proof -
  have i: "(a1 < b1 \<or> (a1 = b1 \<and> a0 < b0)) = (a1 * 10 + a0 < b1 * 10 + b0)"
    using assms by (intro lex_step)
  have bi: "a1 * 10 + a0 < 100" "b1 * 10 + b0 < 100" using assms by arith+
  have ii: "(a2 < b2 \<or> (a2 = b2 \<and> a1 * 10 + a0 < b1 * 10 + b0))
            = (a2 * 100 + (a1 * 10 + a0) < b2 * 100 + (b1 * 10 + b0))"
    using bi by (intro lex_step)
  have bii: "a2 * 100 + (a1 * 10 + a0) < 1000" "b2 * 100 + (b1 * 10 + b0) < 1000"
    using assms by arith+
  have iii: "(a3 < b3 \<or> (a3 = b3 \<and> a2 * 100 + (a1 * 10 + a0) < b2 * 100 + (b1 * 10 + b0)))
            = (a3 * 1000 + (a2 * 100 + (a1 * 10 + a0)) < b3 * 1000 + (b2 * 100 + (b1 * 10 + b0)))"
    using bii by (intro lex_step)
  show ?thesis
    unfolding i ii iii by (simp only: add.assoc)
qed

lemma str_less_pad4:
  assumes "a < 10000" and "b < 10000"
  shows "str_less (padStart 4 (CHR ''0'') (string_of_nat a))
                  (padStart 4 (CHR ''0'') (string_of_nat b)) = (a < b)"
proof -
  have da: "a div 1000 < 10" "a div 100 mod 10 < 10" "a div 10 mod 10 < 10" "a mod 10 < 10"
    using assms(1) by simp_all
  have db: "b div 1000 < 10" "b div 100 mod 10 < 10" "b div 10 mod 10 < 10" "b mod 10 < 10"
    using assms(2) by simp_all
  have "str_less (padStart 4 (CHR ''0'') (string_of_nat a))
                 (padStart 4 (CHR ''0'') (string_of_nat b))
        = (a div 1000 < b div 1000 \<or> (a div 1000 = b div 1000
            \<and> (a div 100 mod 10 < b div 100 mod 10 \<or> (a div 100 mod 10 = b div 100 mod 10
            \<and> (a div 10 mod 10 < b div 10 mod 10 \<or> (a div 10 mod 10 = b div 10 mod 10
            \<and> a mod 10 < b mod 10))))))"
    unfolding pad4 [OF assms(1)] pad4 [OF assms(2)] str_less.simps
      digit_code [OF da(1)] digit_code [OF da(2)] digit_code [OF da(3)] digit_code [OF da(4)]
      digit_code [OF db(1)] digit_code [OF db(2)] digit_code [OF db(3)] digit_code [OF db(4)]
      digit_inj [OF da(1) db(1)] digit_inj [OF da(2) db(2)] digit_inj [OF da(3) db(3)]
    by simp
  also have "\<dots> = (a div 1000 * 1000 + a div 100 mod 10 * 100 + a div 10 mod 10 * 10 + a mod 10
                    < b div 1000 * 1000 + b div 100 mod 10 * 100 + b div 10 mod 10 * 10 + b mod 10)"
    using da(2-4) db(2-4) by (rule lex_digits)
  also have "\<dots> = (a < b)"
    by (simp only: decimal_digits [of a, symmetric] decimal_digits [of b, symmetric])
  finally show ?thesis .
qed

lemma convert_from_sortText:
  "convert_from cfgs ctx i ss = Inr items \<Longrightarrow> map sortText items = map sortText_of ss"
proof (induction ss arbitrary: i items)
  case Nil
  then show ?case by simp
next
  case (Cons s ss)
  from Cons.prems obtain item rest where
    it: "toCompletionItem cfgs ctx i s = Inr item"
    and rest: "convert_from cfgs ctx (Suc i) ss = Inr rest"
    and items: "items = item # rest"
    by (auto split: sum.splits)
  have "sortText item = sortText_of s"
    using it by (auto simp: toCompletionItem_def split: sum.splits)
  with Cons.IH [OF rest] items show ?case by simp
qed

lemma example_conversion_succeeds:
  "\<exists>items. convertToCompletionItems defaultConfigs [suggestionSure, suggestionLessSure]
            exampleEnhanced = Inr items"
  by (simp add: convertToCompletionItems_def toCompletionItem_def formatSuggestionText_single_line
        suggestionSure_def suggestionLessSure_def)

text \<open>
  What the sort text does where the sort value is not negative: it orders as the sort
  value, which falls as the confidence rises; and at equal confidence (between 0 and 1)
  a suggestion flagged language-specific comes before one that is not.
\<close>

lemma sortText_of_nonneg:
  "0 \<le> sortValue s \<Longrightarrow>
   sortText_of s = padStart 4 (CHR ''0'') (string_of_nat (nat (sortValue s)))"
  by (simp add: sortText_of_def String_of_int_def)

lemma sortText_orders_nonnegative:
  assumes "0 \<le> sortValue a" and "sortValue a < 10000"
    and "0 \<le> sortValue b" and "sortValue b < 10000"
  shows "str_less (sortText_of a) (sortText_of b) = (sortValue a < sortValue b)"
proof -
  have "str_less (padStart 4 (CHR ''0'') (string_of_nat (nat (sortValue a))))
                 (padStart 4 (CHR ''0'') (string_of_nat (nat (sortValue b))))
        = (nat (sortValue a) < nat (sortValue b))"
    using assms by (intro str_less_pad4) simp_all
  moreover have "(nat (sortValue a) < nat (sortValue b)) = (sortValue a < sortValue b)"
    using assms by linarith
  ultimately show ?thesis
    using assms by (simp only: sortText_of_nonneg)
qed

lemma Math_round_mono: "x \<le> y \<Longrightarrow> Math_round x \<le> Math_round y"
  unfolding Math_round_def by (intro floor_mono) simp

lemma sortValue_antitone:
  assumes "confidence a \<le> confidence b" and "priorityBonus a = priorityBonus b"
  shows "sortValue b \<le> sortValue a"
proof -
  have "Math_round (confidence a * 999) \<le> Math_round (confidence b * 999)"
    using assms(1) by (intro Math_round_mono) simp
  then show ?thesis using assms(2) by (simp add: sortValue_def)
qed

lemma Math_round_range:
  assumes "0 \<le> c" and "c \<le> 1"
  shows "0 \<le> Math_round (c * 999) \<and> Math_round (c * 999) \<le> 999"
proof -
  have "Math_round 0 \<le> Math_round (c * 999)"
    using assms(1) by (intro Math_round_mono) simp
  moreover have "Math_round (c * 999) \<le> Math_round 999"
    using assms(2) by (intro Math_round_mono) simp
  moreover have "Math_round 0 = 0"
    unfolding Math_round_def by (rule floor_unique) simp_all
  moreover have "Math_round 999 = 999"
    unfolding Math_round_def by (rule floor_unique) simp_all
  ultimately show ?thesis by simp
qed

lemma sortValue_range:
  assumes "0 \<le> confidence s" and "confidence s \<le> 1"
  shows "1 - priorityBonus s \<le> sortValue s \<and> sortValue s \<le> 1000 - priorityBonus s"
  using Math_round_range [OF assms] by (simp add: sortValue_def)


lemma bonus_orders_first:
  assumes "0 \<le> confidence a" and "confidence a \<le> 1"
    and "confidence b = confidence a"
    and "languageSpecific a = Some True" and "languageSpecific b \<noteq> Some True"
  shows "str_less (sortText_of a) (sortText_of b)"
proof -
  have pa: "priorityBonus a = 100" and pb: "priorityBonus b = 0"
    using assms(4,5) by (simp_all add: priorityBonus_def)
  have rb: "1 \<le> sortValue b \<and> sortValue b \<le> 1000"
    using sortValue_range [of b] assms(1-3) pb by simp
  have va: "sortValue a = sortValue b - 100"
    using assms(3) pa pb by (simp add: sortValue_def)
  show ?thesis
  proof (cases "100 \<le> sortValue b")
    case True
    have "str_less (sortText_of a) (sortText_of b) = (sortValue a < sortValue b)"
      using True rb va by (intro sortText_orders_nonnegative) simp_all
    then show ?thesis using va by simp
  next
    case False
    define v where "v = nat (sortValue b)"
    define k where "k = nat (100 - sortValue b)"
    have v: "v < 100" and k: "1 \<le> k" "k < 100"
      using False rb by (simp_all add: v_def k_def)
    have tb: "sortText_of b = [CHR ''0'', CHR ''0'', ''0123456789'' ! (v div 10 mod 10),
                               ''0123456789'' ! (v mod 10)]"
    proof -
      have "v div 1000 = 0" "v div 100 = 0" using v by simp_all
      then show ?thesis
        using rb v pad4 [of v] by (simp add: sortText_of_nonneg v_def)
    qed
    have ta: "sortText_of a = padStart 4 (CHR ''0'') (CHR ''-'' # string_of_nat k)"
      using False va by (simp add: sortText_of_def String_of_int_def k_def)
    have d: "v div 10 mod 10 < 10" by simp
    show ?thesis
    proof (cases "k < 10")
      case True
      have "sortText_of a = [CHR ''0'', CHR ''0'', CHR ''-'', ''0123456789'' ! k]"
        unfolding ta string_of_nat_small [OF True] padStart_def
        by (simp add: replicate_small numeral_2_eq_2)
      then show ?thesis
        unfolding tb using digit_code [OF d] by simp
    next
      case False
      then have k10: "10 \<le> k" by simp
      have "k div 10 < 10" using k by simp
      then have "string_of_nat k = [''0123456789'' ! (k div 10), ''0123456789'' ! (k mod 10)]"
        using string_of_nat_step [OF k10] by (simp add: string_of_nat_small)
      then have "sortText_of a = [CHR ''0'', CHR ''-'', ''0123456789'' ! (k div 10),
                                  ''0123456789'' ! (k mod 10)]"
        unfolding ta padStart_def by (simp add: replicate_small)
      then show ?thesis
        unfolding tb by simp
    qed
  qed
qed

subsection \<open>The handler of the dispatcher\<close>

text \<open>
  \<open>getSuggestions\<close> returns a response on every outcome of the request. When the
  request is rejected with an error \<open>e\<close>, or resolves with a body that fails
  \<open>isValidSuggestionResponse\<close>, the response has status \<^verbatim>\<open>'error'\<close>, no suggestions
  and the message of \<open>getErrorMessage\<close>: the status code and text for an error that
  carries a reply, the no-response message for an error without a reply that carries a
  request object, the time-out message for an error with neither and the code
  \<^verbatim>\<open>ECONNABORTED\<close>, and \<^verbatim>\<open>Request failed: Invalid response format from API\<close> for the
  malformed body.
\<close>

lemma getSuggestions_failure_is_error_response:
  "(\<exists>r. getSuggestions typed ctx outcome pt = Inr r)
   \<and> getSuggestions typed ctx (Rejected e) pt = Inr (errorResponse ctx e)
   \<and> (\<not> isValidSuggestionResponse data \<longrightarrow>
        getSuggestions typed ctx (Resolved data) pt
          = Inr (errorResponse ctx (plain_Error ''Invalid response format from API'')))
   \<and> status (errorResponse ctx e) = Error
   \<and> suggestions (errorResponse ctx e) = []
   \<and> errorMessage (errorResponse ctx e) = Some (getErrorMessage e)
   \<and> (\<forall>r. err_response e = Some r \<longrightarrow>
          getErrorMessage e
            = ''Server error: '' @ String_of_int (er_status r) @ '' - ''
              @ (case er_data_message r of
                   None \<Rightarrow> er_statusText r
                 | Some m \<Rightarrow> if m = [] then er_statusText r else m))
   \<and> (err_response e = None \<and> err_request e \<longrightarrow>
        getErrorMessage e
          = ''No response from server. Please check your connection and API URL.'')
   \<and> (err_response e = None \<and> \<not> err_request e \<and> err_code e = Some ''ECONNABORTED'' \<longrightarrow>
        getErrorMessage e
          = ''Request timeout. The AI service is taking too long to respond.'')
   \<and> getErrorMessage (plain_Error ''Invalid response format from API'')
        = ''Request failed: Invalid response format from API''"
proof -
  have total: "\<exists>r. getSuggestions typed ctx outcome pt = Inr r"
    by (cases "getSuggestions_try typed ctx outcome pt") (simp_all add: getSuggestions_def)
  have rejected: "getSuggestions typed ctx (Rejected e) pt = Inr (errorResponse ctx e)"
    by (simp add: getSuggestions_def getSuggestions_try_def)
  have malformed: "\<not> isValidSuggestionResponse data \<Longrightarrow>
        getSuggestions typed ctx (Resolved data) pt
          = Inr (errorResponse ctx (plain_Error ''Invalid response format from API''))"
    by (simp add: getSuggestions_def getSuggestions_try_def)
  have fields: "status (errorResponse ctx e) = Error \<and> suggestions (errorResponse ctx e) = []
                \<and> errorMessage (errorResponse ctx e) = Some (getErrorMessage e)"
    by (simp add: errorResponse_def)
  have server: "\<And>r. err_response e = Some r \<Longrightarrow>
          getErrorMessage e
            = ''Server error: '' @ String_of_int (er_status r) @ '' - ''
              @ (case er_data_message r of
                   None \<Rightarrow> er_statusText r
                 | Some m \<Rightarrow> if m = [] then er_statusText r else m)"
    by (simp add: getErrorMessage_def)
  have silent: "err_response e = None \<and> err_request e \<Longrightarrow>
        getErrorMessage e
          = ''No response from server. Please check your connection and API URL.''"
    by (simp add: getErrorMessage_def)
  have timeout: "err_response e = None \<and> \<not> err_request e \<and> err_code e = Some ''ECONNABORTED'' \<Longrightarrow>
        getErrorMessage e
          = ''Request timeout. The AI service is taking too long to respond.''"
    by (simp add: getErrorMessage_def)
  have shape: "getErrorMessage (plain_Error ''Invalid response format from API'')
        = ''Request failed: Invalid response format from API''"
    by (simp add: getErrorMessage_def plain_Error_def)
  from total rejected malformed fields server silent timeout shape show ?thesis
    by blast
qed

lemma example_messages:
  "getErrorMessage error500 = ''Server error: 500 - Internal Server Error''"
  "getErrorMessage errorNoResponse
     = ''No response from server. Please check your connection and API URL.''"
  "\<not> isValidSuggestionResponse malformedBody"
  by (simp_all add: getErrorMessage_def error500_def errorNoResponse_def String_of_int_def
        string_of_nat.simps isValidSuggestionResponse_def malformedBody_def)

subsection \<open>The pipeline, step by step\<close>

lemma start_guarded:
  "isProcessing s \<Longrightarrow> provideCompletionItems_start md5 t s = (Returned [], s)"
  by (simp add: provideCompletionItems_start_def)

lemma start_Awaiting:
  assumes "provideCompletionItems_start md5 t s = (Awaiting p, s1)"
  shows "t_enabled t \<and> \<not> isProcessing s \<and> s1 = s \<lparr> isProcessing := True \<rparr>
       \<and> (\<exists>c. t_extracted t = Inr c
              \<and> p_codeContext p =
                   enhanceContextWithLanguageInfo (languageConfigs s) c (t_languageId t) (t_fileName t))
       \<and> p_startTime p = t_now t
       \<and> p_contextHash p = generateContextHash md5 (p_codeContext p)
       \<and> isLanguageSupported (languageConfigs s) (language (p_codeContext p))"
  using assms
  by (auto simp: provideCompletionItems_start_def Let_def after_return_def after_exception_def
           split: if_splits sum.splits option.splits)

lemma start_cache: "cache (snd (provideCompletionItems_start md5 t s)) = cache s"
  by (auto simp: provideCompletionItems_start_def Let_def after_return_def after_exception_def
           split: if_splits sum.splits option.splits)

lemma resume_not_success:
  "status response \<noteq> Success \<Longrightarrow>
   provideCompletionItems_resume p response clock s =
     ([], s \<lparr> statsManager := recordError ''api_error'' (statsManager s), isProcessing := False \<rparr>)"
  by (simp add: provideCompletionItems_resume_def after_return_def)

lemma resume_releases:
  "isProcessing (snd (provideCompletionItems_resume p response clock s)) = False"
  by (auto simp: provideCompletionItems_resume_def Let_def after_return_def after_exception_def
           split: sum.splits)

lemma resume_success_state:
  "status response = Success \<Longrightarrow>
   cache (snd (provideCompletionItems_resume p response clock s))
     = cache_insert (cache s) (p_contextHash p, response)
   \<and> languageConfigs (snd (provideCompletionItems_resume p response clock s)) = languageConfigs s
   \<and> totalRequests (stats (statsManager (snd (provideCompletionItems_resume p response clock s))))
       = totalRequests (stats (statsManager s)) + 1"
  by (auto simp: provideCompletionItems_resume_def Let_def after_return_def after_exception_def
        recordCompletion_def recordError_def split: sum.splits)

lemma formatSuggestionText_ctx:
  "formatSuggestionText body a cfg = formatSuggestionText body b cfg"
  by (simp add: formatSuggestionText_def)

lemma enhanceDescription_language:
  "language a = language b \<Longrightarrow> enhanceDescription cfgs d a = enhanceDescription cfgs d b"
  by (cases "map_get (language b) cfgs") (simp_all add: enhanceDescription_def)

lemma toCompletionItem_language:
  "language a = language b \<Longrightarrow> toCompletionItem cfgs a i s = toCompletionItem cfgs b i s"
proof -
  assume l: "language a = language b"
  have f: "\<And>body cfg. formatSuggestionText body a cfg = formatSuggestionText body b cfg"
    by (rule formatSuggestionText_ctx)
  have e: "\<And>d. enhanceDescription cfgs d a = enhanceDescription cfgs d b"
    using l by (rule enhanceDescription_language)
  show ?thesis
    unfolding toCompletionItem_def l e f ..
qed

lemma convert_from_language:
  assumes l: "language a = language b"
  shows "convert_from cfgs a i ss = convert_from cfgs b i ss"
  by (induction ss arbitrary: i)
     (simp_all add: toCompletionItem_language [OF l] split: sum.split)

lemma convertToCompletionItems_language:
  "language a = language b \<Longrightarrow>
   convertToCompletionItems cfgs ss a = convertToCompletionItems cfgs ss b"
  unfolding convertToCompletionItems_def by (rule convert_from_language)

lemma enhance_fields:
  "language (enhanceContextWithLanguageInfo cfgs c l f) = l"
  "currentLine (enhanceContextWithLanguageInfo cfgs c l f) = currentLine c"
  "previousLines (enhanceContextWithLanguageInfo cfgs c l f) = previousLines c"
  "functionContext (enhanceContextWithLanguageInfo cfgs c l f) = functionContext c"
  "classContext (enhanceContextWithLanguageInfo cfgs c l f) = classContext c"
  by (simp_all add: enhanceContextWithLanguageInfo_def Let_def)

lemma enhance_resolved:
  "fileExtension (enhanceContextWithLanguageInfo cfgs c l f)
     = fileExtension (enhanceContextWithLanguageInfo cfgs c' l f)"
  "indentStyle (enhanceContextWithLanguageInfo cfgs c l f)
     = indentStyle (enhanceContextWithLanguageInfo cfgs c' l f)"
  "indentSize (enhanceContextWithLanguageInfo cfgs c l f)
     = indentSize (enhanceContextWithLanguageInfo cfgs c' l f)"
  by (simp_all add: enhanceContextWithLanguageInfo_def Let_def)

lemma enhance_hash_cong:
  assumes "currentLine c2 = currentLine c1"
    and "slice_last 10 (previousLines c2) = slice_last 10 (previousLines c1)"
    and "functionContext c2 = functionContext c1"
    and "classContext c2 = classContext c1"
  shows "generateContextHash md5 (enhanceContextWithLanguageInfo cfgs c2 l f)
       = generateContextHash md5 (enhanceContextWithLanguageInfo cfgs c1 l f)"
proof -
  have "hashProjection (enhanceContextWithLanguageInfo cfgs c2 l f)
      = hashProjection (enhanceContextWithLanguageInfo cfgs c1 l f)"
    by (rule hashProjection_cong) (simp_all add: enhance_fields assms enhance_resolved [of cfgs c2 l f c1])
  then show ?thesis by (simp add: generateContextHash_def)
qed

text \<open>The continuation on a successful response, by the outcome of the conversion.\<close>

lemma resume_success:
  assumes "status response = Success"
  shows "\<exists>s'. provideCompletionItems_resume p response clock s
              = ((case convertToCompletionItems (languageConfigs s) (suggestions response)
                        (p_codeContext p) of Inl e \<Rightarrow> [] | Inr items \<Rightarrow> items), s')
            \<and> cache s' = cache_insert (cache s) (p_contextHash p, response)
            \<and> languageConfigs s' = languageConfigs s
            \<and> isProcessing s' = False"
  using assms
  by (auto simp: provideCompletionItems_resume_def Let_def after_return_def after_exception_def
           split: sum.splits)

text \<open>A start that finds a successful response under the key of the context.\<close>

lemma start_hit:
  assumes "t_enabled t" and "\<not> isProcessing s" and "t_extracted t = Inr c"
    and "isLanguageSupported (languageConfigs s)
           (language (enhanceContextWithLanguageInfo (languageConfigs s) c (t_languageId t) (t_fileName t)))"
    and "map_get (generateContextHash md5
                    (enhanceContextWithLanguageInfo (languageConfigs s) c (t_languageId t) (t_fileName t)))
           (cache s) = Some r"
    and "status r = Success"
  shows "\<exists>s'. provideCompletionItems_start md5 t s
              = (Returned (case convertToCompletionItems (languageConfigs s) (suggestions r)
                                  (enhanceContextWithLanguageInfo (languageConfigs s) c
                                     (t_languageId t) (t_fileName t))
                           of Inl e \<Rightarrow> [] | Inr items \<Rightarrow> items), s')
            \<and> cache s' = cache s
            \<and> cacheHits (stats (statsManager s')) = cacheHits (stats (statsManager s)) + 1
            \<and> totalRequests (stats (statsManager s')) = totalRequests (stats (statsManager s))
            \<and> isProcessing s' = False"
  using assms
  by (auto simp: provideCompletionItems_start_def Let_def after_return_def after_exception_def
        recordCacheHit_def recordError_def split: sum.splits)

text \<open>Neither part of a call lets the cache grow beyond its bound.\<close>

lemma resume_cache_bounded:
  assumes "map_size (cache s) \<le> 100"
  shows "map_size (cache (snd (provideCompletionItems_resume p response clock s))) \<le> 100"
proof (cases "status response = Success")
  case True
  have "length (cache_insert (cache s) (p_contextHash p, response)) \<le> 100"
    using assms by (intro length_cache_insert) (simp add: map_size_def)
  then show ?thesis
    using resume_success_state [OF True, of p clock s] by (simp add: map_size_def)
next
  case False
  then show ?thesis using assms by (simp add: resume_not_success)
qed

lemma start_cache_bounded:
  "map_size (cache s) \<le> 100 \<Longrightarrow>
   map_size (cache (snd (provideCompletionItems_start md5 t s))) \<le> 100"
  by (simp add: start_cache)

subsection \<open>The concrete run\<close>

lemma python_supported: "map_get ''python'' defaultConfigs = Some pythonConfig"
  by (simp add: map_get_def defaultConfigs_def pythonConfig_def)

lemma example_start:
  "provideCompletionItems_start digest0 exampleTrigger (newProvider freshStatistics)
     = (Awaiting examplePending, exampleInFlight)"
  by (simp add: provideCompletionItems_start_def exampleTrigger_def newProvider_def Let_def
        isLanguageSupported_def enhance_fields python_supported map_get_def [of _ "[]"]
        examplePending_def exampleInFlight_def exampleEnhanced_def)

lemma example_guarded:
  "provideCompletionItems_start digest0 exampleTrigger' exampleInFlight
     = (Returned [], exampleInFlight)"
  by (rule start_guarded) (simp add: exampleInFlight_def)

lemma example_resumed:
  "provideCompletionItems_resume examplePending exampleResponse exampleClock exampleInFlight
     = (exampleItems, exampleCached)"
  by (simp add: exampleItems_def exampleCached_def)

lemma example_facts:
  "status exampleResponse = Success"
  "cacheHit (metadata exampleResponse) = False"
  "status exampleFailure = Error"
  "map_size (cache (newProvider freshStatistics)) \<le> 100"
  "cache exampleInFlight = []"
  "totalRequests (stats (statsManager (newProvider freshStatistics))) = 0"
  "errorCount (stats (statsManager (newProvider freshStatistics))) = 0"
  "errorCount (stats (statsManager exampleInFlight)) = 0"
  "t_enabled exampleTrigger'"
  "t_languageId exampleTrigger' = t_languageId exampleTrigger"
  "t_fileName exampleTrigger' = t_fileName exampleTrigger"
  "t_extracted exampleTrigger = Inr exampleContext"
  "t_extracted exampleTrigger' = Inr exampleContext'"
  by (simp_all add: exampleResponse_def exampleFailure_def errorResponse_def newProvider_def
        freshStatistics_def exampleInFlight_def map_size_def exampleTrigger_def
        exampleTrigger'_def)

lemma example_same_projection:
  "currentLine exampleContext' = currentLine exampleContext"
  "slice_last 10 (previousLines exampleContext') = slice_last 10 (previousLines exampleContext)"
  "functionContext exampleContext' = functionContext exampleContext"
  "classContext exampleContext' = classContext exampleContext"
  "language exampleContext' = language exampleContext"
  "fileExtension exampleContext' = fileExtension exampleContext"
  "indentStyle exampleContext' = indentStyle exampleContext"
  "indentSize exampleContext' = indentSize exampleContext"
  by (simp_all add: exampleContext_def exampleContext'_def slice_last_def lastTenLines_def)

lemma example_differences:
  "position exampleContext' \<noteq> position exampleContext"
  "previousLines exampleContext' \<noteq> previousLines exampleContext"
  "ctx_imports exampleContext' \<noteq> ctx_imports exampleContext"
  "variables exampleContext' \<noteq> variables exampleContext"
  "filePath exampleContext' \<noteq> filePath exampleContext"
  by (simp_all add: exampleContext_def exampleContext'_def)

subsection \<open>A second trigger after a successful first one\<close>

text \<open>
  The first trigger reaches the await and resumes on a successful response; a second
  trigger on the same document whose extracted context agrees on the current line, the
  last ten previous lines and the enclosing function and class then finds the response
  in the cache.
\<close>

lemma cache_hit_after_success:
  assumes size: "map_size (cache s0) \<le> 100"
    and first: "provideCompletionItems_start md5 t1 s0 = (Awaiting p, s1)"
    and ok: "status response = Success"
    and resumed: "provideCompletionItems_resume p response clock s1 = (items1, s2)"
    and en: "t_enabled t2"
    and doc: "t_languageId t2 = t_languageId t1" "t_fileName t2 = t_fileName t1"
    and ex1: "t_extracted t1 = Inr c1"
    and ex2: "t_extracted t2 = Inr c2"
    and same: "currentLine c2 = currentLine c1"
      "slice_last 10 (previousLines c2) = slice_last 10 (previousLines c1)"
      "functionContext c2 = functionContext c1"
      "classContext c2 = classContext c1"
  shows "\<exists>s3. provideCompletionItems_start md5 t2 s2 = (Returned items1, s3)
            \<and> cache s3 = cache s2
            \<and> map_get (p_contextHash p) (cache s3) = Some response
            \<and> cacheHits (stats (statsManager s3)) = cacheHits (stats (statsManager s2)) + 1
            \<and> totalRequests (stats (statsManager s3)) = totalRequests (stats (statsManager s2))"
proof -
  let ?cfgs = "languageConfigs s0"
  let ?ctx1 = "enhanceContextWithLanguageInfo ?cfgs c1 (t_languageId t1) (t_fileName t1)"
  let ?ctx2 = "enhanceContextWithLanguageInfo ?cfgs c2 (t_languageId t1) (t_fileName t1)"
  note a = start_Awaiting [OF first]
  have s1: "s1 = s0 \<lparr> isProcessing := True \<rparr>" using a by simp
  have pc: "p_codeContext p = ?ctx1" using a ex1 by auto
  have ph: "p_contextHash p = generateContextHash md5 ?ctx1" using a pc by simp
  have sup: "isLanguageSupported ?cfgs (t_languageId t1)"
    using a pc by (simp add: enhance_fields)
  obtain s' where r: "provideCompletionItems_resume p response clock s1
              = ((case convertToCompletionItems (languageConfigs s1) (suggestions response)
                        (p_codeContext p) of Inl e \<Rightarrow> [] | Inr items \<Rightarrow> items), s')"
    and r_cache: "cache s' = cache_insert (cache s1) (p_contextHash p, response)"
    and r_cfgs: "languageConfigs s' = languageConfigs s1"
    and r_idle: "isProcessing s' = False"
    using resume_success [OF ok, of p clock s1] by blast
  have s2: "s2 = s'" using r resumed by simp
  have items1: "items1 = (case convertToCompletionItems ?cfgs (suggestions response) ?ctx1
                          of Inl e \<Rightarrow> [] | Inr items \<Rightarrow> items)"
    using r resumed pc s1 by simp
  have cfgs2: "languageConfigs s2 = ?cfgs" using s2 r_cfgs s1 by simp
  have idle2: "\<not> isProcessing s2" using s2 r_idle by simp
  have "map_size (cache s1) \<le> 100" using size s1 by simp
  then have got: "map_get (p_contextHash p) (cache s2) = Some response"
    using s2 r_cache by (simp add: map_get_cache_insert)
  have hash2: "generateContextHash md5 ?ctx2 = p_contextHash p"
    unfolding ph using same by (rule enhance_hash_cong)
  have conv: "convertToCompletionItems ?cfgs (suggestions response) ?ctx2
            = convertToCompletionItems ?cfgs (suggestions response) ?ctx1"
    by (rule convertToCompletionItems_language) (simp add: enhance_fields)
  have "\<exists>s3. provideCompletionItems_start md5 t2 s2
              = (Returned (case convertToCompletionItems (languageConfigs s2) (suggestions response)
                                  (enhanceContextWithLanguageInfo (languageConfigs s2) c2
                                     (t_languageId t2) (t_fileName t2))
                           of Inl e \<Rightarrow> [] | Inr items \<Rightarrow> items), s3)
            \<and> cache s3 = cache s2
            \<and> cacheHits (stats (statsManager s3)) = cacheHits (stats (statsManager s2)) + 1
            \<and> totalRequests (stats (statsManager s3)) = totalRequests (stats (statsManager s2))
            \<and> isProcessing s3 = False"
  proof (rule start_hit [OF en idle2 ex2 _ _ ok])
    show "isLanguageSupported (languageConfigs s2)
           (language (enhanceContextWithLanguageInfo (languageConfigs s2) c2
              (t_languageId t2) (t_fileName t2)))"
      using sup by (simp add: cfgs2 doc enhance_fields)
    show "map_get (generateContextHash md5
                    (enhanceContextWithLanguageInfo (languageConfigs s2) c2
                       (t_languageId t2) (t_fileName t2)))
           (cache s2) = Some response"
      using got hash2 by (simp add: cfgs2 doc)
  qed
  then show ?thesis
    using got items1 conv by (auto simp: cfgs2 doc)
qed

lemma list_all_map_set:
  "list_all P m \<Longrightarrow> P (k, v) \<Longrightarrow> list_all P (map_set k v m)"
  by (induction m) auto

lemma list_all_cleanupCache: "list_all P m \<Longrightarrow> list_all P (cleanupCache m)"
  by (simp add: cleanupCache_def foldl_map_delete Let_def list_all_iff)

subsection \<open>The states a provider can reach\<close>

text \<open>
  In every state a provider can reach, the cache holds at most 100 entries and each of
  them is a response with status \<^verbatim>\<open>'success'\<close>.
\<close>

lemma resume_all_success:
  assumes inv: "list_all (\<lambda>e. status (snd e) = Success) (cache s)"
  shows "list_all (\<lambda>e. status (snd e) = Success)
           (cache (snd (provideCompletionItems_resume p response clock s)))"
proof (cases "status response = Success")
  case True
  have "list_all (\<lambda>e. status (snd e) = Success) (map_set (p_contextHash p) response (cache s))"
    using inv True by (simp add: list_all_map_set)
  then have "list_all (\<lambda>e. status (snd e) = Success)
               (cache_insert (cache s) (p_contextHash p, response))"
    unfolding cache_insert_def fst_conv snd_conv by (rule list_all_cleanupCache)
  then show ?thesis
    using resume_success_state [OF True, of p clock s] by simp
next
  case False
  then show ?thesis using inv by (simp add: resume_not_success)
qed

lemma reachable_cache_bounded: "reachable md5 s \<Longrightarrow> map_size (cache s) \<le> 100"
proof (induction rule: reachable.induct)
  case (reachable_new sm)
  show ?case by (simp add: newProvider_def map_size_def)
next
  case (reachable_start s t)
  then show ?case by (simp add: start_cache)
next
  case (reachable_resume s p response clock)
  from reachable_resume.IH show ?case by (rule resume_cache_bounded)
next
  case (reachable_clear s)
  show ?case by (simp add: clearCache_def map_size_def)
next
  case (reachable_other s cfgs sm)
  then show ?case by simp
qed

lemma reachable_all_success:
  "reachable md5 s \<Longrightarrow> list_all (\<lambda>e. status (snd e) = Success) (cache s)"
proof (induction rule: reachable.induct)
  case (reachable_new sm)
  show ?case by (simp add: newProvider_def)
next
  case (reachable_start s t)
  then show ?case by (simp add: start_cache)
next
  case (reachable_resume s p response clock)
  from reachable_resume.IH show ?case by (rule resume_all_success)
next
  case (reachable_clear s)
  show ?case by (simp add: clearCache_def)
next
  case (reachable_other s cfgs sm)
  then show ?case by simp
qed

lemma example_reachable:
  "reachable digest0 (newProvider freshStatistics)"
  "reachable digest0 exampleInFlight"
  "reachable digest0 exampleCached"
proof -
  show a: "reachable digest0 (newProvider freshStatistics)"
    by (rule reachable_new)
  have "reachable digest0
          (snd (provideCompletionItems_start digest0 exampleTrigger (newProvider freshStatistics)))"
    using a by (rule reachable_start)
  then show b: "reachable digest0 exampleInFlight"
    by (simp add: example_start)
  show "reachable digest0 exampleCached"
    unfolding exampleCached_def using b by (rule reachable_resume)
qed

section \<open>The claims\<close>

text \<open>
  C1. Two contexts that agree on the current line, on the last ten previous lines, on
  the language, on the descriptors of the enclosing function and class, on the file
  extension and on the indent style and size get the same key from
  \<open>generateContextHash\<close>, whatever their cursor positions, imports, variables, file
  paths and context windows are, and whatever digest stands for \<open>md5\<close>.
\<close>

theorem generateContextHash_deterministic:
  assumes "currentLine a = currentLine b"
    and "slice_last 10 (previousLines a) = slice_last 10 (previousLines b)"
    and "language a = language b"
    and "functionContext a = functionContext b"
    and "classContext a = classContext b"
    and "fileExtension a = fileExtension b"
    and "indentStyle a = indentStyle b"
    and "indentSize a = indentSize b"
  shows "generateContextHash md5 a = generateContextHash md5 b"
proof -
  have "hashProjection a = hashProjection b"
    using assms by (rule hashProjection_cong)
  then show ?thesis by (simp add: generateContextHash_def)
qed

theorem generateContextHash_deterministic_witness:
  "position exampleContext' \<noteq> position exampleContext
   \<and> previousLines exampleContext' \<noteq> previousLines exampleContext
   \<and> ctx_imports exampleContext' \<noteq> ctx_imports exampleContext
   \<and> variables exampleContext' \<noteq> variables exampleContext
   \<and> generateContextHash digest0 exampleContext' = generateContextHash digest0 exampleContext"
proof -
  have "generateContextHash digest0 exampleContext' = generateContextHash digest0 exampleContext"
    by (rule generateContextHash_deterministic) (rule example_same_projection)+
  then show ?thesis by (simp add: example_differences)
qed

text \<open>
  C2. Starting from the empty cache of a new CompletionProvider, after any sequence of
  insertions (each one \<^verbatim>\<open>cache.set\<close> followed by \<^verbatim>\<open>cleanupCache\<close>) the cache holds
  at most 100 entries. The sequence is arbitrary, so the bound holds after every
  completed insertion of a run; and it holds in every state a provider can reach, where
  the insertions are those of the successful dispatches.
\<close>

theorem cache_size_bounded:
  "map_size (cache_insertions kvs) \<le> 100
   \<and> (reachable md5 s \<longrightarrow> map_size (cache s) \<le> 100)"
proof -
  have "length (foldl cache_insert [] kvs) \<le> 100"
    by (rule length_foldl_cache_insert) simp
  then have a: "map_size (cache_insertions kvs) \<le> 100"
    by (simp add: cache_insertions_def map_size_def)
  have b: "reachable md5 s \<Longrightarrow> map_size (cache s) \<le> 100"
    by (rule reachable_cache_bounded)
  from a b show ?thesis by blast
qed

theorem cache_size_bounded_witness:
  "map_size (cache_insertions (map (\<lambda>i. (i, i)) [0 ..< 205 :: nat])) \<le> 100
   \<and> map_size (cache exampleCached) \<le> 100"
  using cache_size_bounded [of "map (\<lambda>i. (i, i)) [0 ..< 205 :: nat]" digest0 exampleCached]
    example_reachable(3)
  by blast

text \<open>
  C3. A cache that reached 101 entries by inserting a new key into a cache of 100
  loses exactly its 50 oldest entries in \<^verbatim>\<open>cleanupCache\<close>: what remains is the 50
  younger old entries followed by the new one, 51 in all.
\<close>

theorem cleanupCache_evicts_oldest_half:
  assumes "distinct (map_keys c0)" and "map_size c0 = 100" and "k \<notin> set (map_keys c0)"
  shows "map_size (map_set k v c0) = 101
       \<and> cleanupCache (map_set k v c0) = drop 50 c0 @ [(k, v)]
       \<and> map_size (cleanupCache (map_set k v c0)) = 51
       \<and> map_keys (cleanupCache (map_set k v c0)) = drop 50 (map_keys c0) @ [k]"
proof -
  let ?m = "c0 @ [(k, v)]"
  have new: "map_set k v c0 = ?m"
    using assms(3) by (simp add: map_set_new_key map_keys_def)
  have len: "length ?m = 101"
    using assms(2) by (simp add: map_size_def)
  have dist: "distinct (map fst ?m)"
    using assms(1,3) by (simp add: map_keys_def)
  have "cleanupCache ?m = filter (\<lambda>e. fst e \<notin> set (take 50 (map fst ?m))) ?m"
    using len by (simp add: cleanupCache_def map_size_def map_keys_def foldl_map_delete Let_def)
  also have "\<dots> = drop 50 ?m"
    using dist by (rule filter_take_keys_distinct)
  also have "\<dots> = drop 50 c0 @ [(k, v)]"
    using assms(2) by (simp add: map_size_def)
  finally have eq: "cleanupCache ?m = drop 50 c0 @ [(k, v)]" .
  show ?thesis
    using new len eq assms(2) by (simp add: map_size_def map_keys_def drop_map)
qed

theorem cleanupCache_evicts_oldest_half_witness:
  "map_size (map_set (100::nat) (0::nat) (map (\<lambda>i. (i, i)) [0 ..< 100])) = 101
   \<and> cleanupCache (map_set (100::nat) (0::nat) (map (\<lambda>i. (i, i)) [0 ..< 100]))
       = drop 50 (map (\<lambda>i. (i, i)) [0 ..< 100]) @ [(100, 0)]
   \<and> map_size (cleanupCache (map_set (100::nat) (0::nat) (map (\<lambda>i. (i, i)) [0 ..< 100]))) = 51
   \<and> map_keys (cleanupCache (map_set (100::nat) (0::nat) (map (\<lambda>i. (i, i)) [0 ..< 100])))
       = drop 50 (map_keys (map (\<lambda>i. (i, i)) [0 ..< 100])) @ [100]"
proof -
  have d: "distinct (map_keys (map (\<lambda>i. (i, i)) [0 ..< 100 :: nat]))"
    by (simp add: map_keys_def comp_def)
  have s: "map_size (map (\<lambda>i. (i, i)) [0 ..< 100 :: nat]) = 100"
    by (simp add: map_size_def)
  have n: "(100::nat) \<notin> set (map_keys (map (\<lambda>i. (i, i)) [0 ..< 100 :: nat]))"
    by (simp add: map_keys_def comp_def)
  show ?thesis
    by (rule cleanupCache_evicts_oldest_half [OF d s n])
qed

text \<open>
  C4. The claim has a time-out reported with a message of its own kind. The input is
  the error of an expired time-out: no reply, the request object attached, the code
  \<^verbatim>\<open>ECONNABORTED\<close>. \<open>getSuggestions\<close> returns, as the claim says, a response with
  status \<^verbatim>\<open>'error'\<close> and no suggestions; but \<open>getErrorMessage\<close> tests for the request
  object before it tests for the code, and the message is the one for no response.
\<close>

theorem timeout_reported_as_no_response:
  "err_response errorTimeout = None
   \<and> err_request errorTimeout
   \<and> err_code errorTimeout = Some ''ECONNABORTED''
   \<and> getSuggestions typedView exampleEnhanced (Rejected errorTimeout) 0
       = Inr (errorResponse exampleEnhanced errorTimeout)
   \<and> status (errorResponse exampleEnhanced errorTimeout) = Error
   \<and> suggestions (errorResponse exampleEnhanced errorTimeout) = []
   \<and> errorMessage (errorResponse exampleEnhanced errorTimeout)
       = Some ''No response from server. Please check your connection and API URL.''
   \<and> errorMessage (errorResponse exampleEnhanced errorTimeout)
       \<noteq> Some ''Request timeout. The AI service is taking too long to respond.''"
  by (simp add: errorTimeout_def getSuggestions_def getSuggestions_try_def errorResponse_def
        getErrorMessage_def)

text \<open>
  C5. In every state a provider can reach, each response in the cache has status
  \<^verbatim>\<open>'success'\<close>. When the dispatcher's response does not have that status, the
  continuation of the call returns no items, leaves the cache as it is and counts one
  error.
\<close>

theorem only_success_responses_cached:
  assumes "reachable md5 s"
  shows "list_all (\<lambda>e. status (snd e) = Success) (cache s)
       \<and> (status response \<noteq> Success \<longrightarrow>
             fst (provideCompletionItems_resume p response clock s) = []
           \<and> cache (snd (provideCompletionItems_resume p response clock s)) = cache s
           \<and> errorCount (stats (statsManager
                 (snd (provideCompletionItems_resume p response clock s))))
               = errorCount (stats (statsManager s)) + 1)"
proof -
  have inv: "list_all (\<lambda>e. status (snd e) = Success) (cache s)"
    using assms by (rule reachable_all_success)
  have rest: "status response \<noteq> Success \<Longrightarrow>
       fst (provideCompletionItems_resume p response clock s) = []
     \<and> cache (snd (provideCompletionItems_resume p response clock s)) = cache s
     \<and> errorCount (stats (statsManager (snd (provideCompletionItems_resume p response clock s))))
         = errorCount (stats (statsManager s)) + 1"
    by (simp add: resume_not_success recordError_def)
  from inv rest show ?thesis by blast
qed

theorem only_success_responses_cached_witness:
  "list_all (\<lambda>e. status (snd e) = Success) (cache exampleCached)
   \<and> fst (provideCompletionItems_resume examplePending exampleFailure exampleClock exampleCached) = []
   \<and> cache (snd (provideCompletionItems_resume examplePending exampleFailure exampleClock
                   exampleCached)) = cache exampleCached
   \<and> errorCount (stats (statsManager
        (snd (provideCompletionItems_resume examplePending exampleFailure exampleClock
                exampleCached))))
       = errorCount (stats (statsManager exampleCached)) + 1"
proof -
  have ne: "status exampleFailure \<noteq> Success"
    by (simp add: example_facts)
  note a = only_success_responses_cached
             [OF example_reachable(3), of exampleFailure examplePending exampleClock]
  show ?thesis
    using a ne by blast
qed

text \<open>
  C6, as amended. While a first call waits for the dispatcher, a second trigger on the
  same provider returns no items at once and leaves the provider as it is, so the
  continuation of the first call runs on the state it would have had alone. The
  continuation releases the flag whether the response is a success or not. After a
  successful response the statistics hold one request more than before the first
  trigger; after any other response they hold the same number of requests, one error
  more, and no item is returned.
\<close>

theorem single_flight_guard:
  assumes first: "provideCompletionItems_start md5 t1 s0 = (Awaiting p, s1)"
  shows "provideCompletionItems_start md5 t2 s1 = (Returned [], s1)
       \<and> isProcessing (snd (provideCompletionItems_resume p response clock s1)) = False
       \<and> (status response = Success \<longrightarrow>
            totalRequests (stats (statsManager (snd (provideCompletionItems_resume p response clock s1))))
              = totalRequests (stats (statsManager s0)) + 1)
       \<and> (status response \<noteq> Success \<longrightarrow>
            fst (provideCompletionItems_resume p response clock s1) = []
          \<and> cache (snd (provideCompletionItems_resume p response clock s1)) = cache s0
          \<and> totalRequests (stats (statsManager (snd (provideCompletionItems_resume p response clock s1))))
              = totalRequests (stats (statsManager s0))
          \<and> errorCount (stats (statsManager (snd (provideCompletionItems_resume p response clock s1))))
              = errorCount (stats (statsManager s0)) + 1)"
proof -
  note a = start_Awaiting [OF first]
  have s1: "s1 = s0 \<lparr> isProcessing := True \<rparr>" using a by simp
  then have busy: "isProcessing s1" by simp
  have g: "provideCompletionItems_start md5 t2 s1 = (Returned [], s1)"
    using busy by (rule start_guarded)
  have rel: "isProcessing (snd (provideCompletionItems_resume p response clock s1)) = False"
    by (rule resume_releases)
  have succ: "status response = Success \<Longrightarrow>
            totalRequests (stats (statsManager (snd (provideCompletionItems_resume p response clock s1))))
              = totalRequests (stats (statsManager s0)) + 1"
    using resume_success_state [of response p clock s1] s1 by simp
  have fail: "status response \<noteq> Success \<Longrightarrow>
            fst (provideCompletionItems_resume p response clock s1) = []
          \<and> cache (snd (provideCompletionItems_resume p response clock s1)) = cache s0
          \<and> totalRequests (stats (statsManager (snd (provideCompletionItems_resume p response clock s1))))
              = totalRequests (stats (statsManager s0))
          \<and> errorCount (stats (statsManager (snd (provideCompletionItems_resume p response clock s1))))
              = errorCount (stats (statsManager s0)) + 1"
    using s1 by (simp add: resume_not_success recordError_def)
  from g rel succ fail show ?thesis by blast
qed

theorem single_flight_guard_witness:
  "provideCompletionItems_start digest0 exampleTrigger' exampleInFlight
     = (Returned [], exampleInFlight)
   \<and> isProcessing (snd (provideCompletionItems_resume examplePending exampleResponse
                          exampleClock exampleInFlight)) = False
   \<and> totalRequests (stats (statsManager
        (snd (provideCompletionItems_resume examplePending exampleResponse exampleClock
                exampleInFlight)))) = 1
   \<and> isProcessing (snd (provideCompletionItems_resume examplePending exampleFailure
                          exampleClock exampleInFlight)) = False
   \<and> errorCount (stats (statsManager
        (snd (provideCompletionItems_resume examplePending exampleFailure exampleClock
                exampleInFlight)))) = 1"
proof -
  note a = single_flight_guard [OF example_start, of exampleTrigger' exampleResponse exampleClock]
  note b = single_flight_guard [OF example_start, of exampleTrigger' exampleFailure exampleClock]
  have ne: "status exampleFailure \<noteq> Success"
    by (simp add: example_facts)
  show ?thesis
    using a b ne by (simp add: example_facts)
qed

text \<open>
  The claim as it was stated promises exactly one recorded completion after both calls
  have resolved. In this run the dispatcher answers the first call with the error
  response of a status 500, the second trigger is dropped, and the statistics then show
  no request and one error.
\<close>

theorem single_flight_failed_dispatch_counterexample:
  "provideCompletionItems_start digest0 exampleTrigger (newProvider freshStatistics)
     = (Awaiting examplePending, exampleInFlight)
   \<and> provideCompletionItems_start digest0 exampleTrigger' exampleInFlight
       = (Returned [], exampleInFlight)
   \<and> totalRequests (stats (statsManager
        (snd (provideCompletionItems_resume examplePending exampleFailure exampleClock
                exampleInFlight)))) = 0
   \<and> errorCount (stats (statsManager
        (snd (provideCompletionItems_resume examplePending exampleFailure exampleClock
                exampleInFlight)))) = 1"
proof -
  have ne: "status exampleFailure \<noteq> Success"
    by (simp add: example_facts)
  have "provideCompletionItems_resume examplePending exampleFailure exampleClock exampleInFlight
          = ([], exampleInFlight \<lparr> statsManager := recordError ''api_error'' (statsManager exampleInFlight),
                                   isProcessing := False \<rparr>)"
    using ne by (rule resume_not_success)
  then show ?thesis
    using example_start example_guarded
    by (simp add: recordError_def exampleInFlight_def newProvider_def freshStatistics_def)
qed

text \<open>
  C7, as amended. In a state a provider can reach, after a first call that dispatched
  and resumed on a successful response, a second trigger on the same document whose extracted context agrees on
  the projected fields returns at once, without reaching the await (no request is
  sent), the items the first call returned; it counts one cache hit and no request,
  and it leaves the cache as it is: the key still maps to the response as the
  dispatcher delivered it, with the \<^verbatim>\<open>metadata.cacheHit\<close> the service reported.
\<close>

theorem second_trigger_served_from_cache:
  assumes reach: "reachable md5 s0"
    and first: "provideCompletionItems_start md5 t1 s0 = (Awaiting p, s1)"
    and ok: "status response = Success"
    and resumed: "provideCompletionItems_resume p response clock s1 = (items1, s2)"
    and en: "t_enabled t2"
    and doc: "t_languageId t2 = t_languageId t1" "t_fileName t2 = t_fileName t1"
    and ex1: "t_extracted t1 = Inr c1"
    and ex2: "t_extracted t2 = Inr c2"
    and same: "currentLine c2 = currentLine c1"
      "slice_last 10 (previousLines c2) = slice_last 10 (previousLines c1)"
      "functionContext c2 = functionContext c1"
      "classContext c2 = classContext c1"
  shows "\<exists>s3. provideCompletionItems_start md5 t2 s2 = (Returned items1, s3)
            \<and> cache s3 = cache s2
            \<and> map_get (p_contextHash p) (cache s3) = Some response
            \<and> cacheHits (stats (statsManager s3)) = cacheHits (stats (statsManager s2)) + 1
            \<and> totalRequests (stats (statsManager s3)) = totalRequests (stats (statsManager s2))"
proof -
  have "map_size (cache s0) \<le> 100"
    using reach by (rule reachable_cache_bounded)
  then show ?thesis
    using first ok resumed en doc ex1 ex2 same by (rule cache_hit_after_success)
qed

theorem second_trigger_served_from_cache_witness:
  "\<exists>s3. provideCompletionItems_start digest0 exampleTrigger' exampleCached
            = (Returned exampleItems, s3)
        \<and> cache s3 = cache exampleCached
        \<and> map_get (p_contextHash examplePending) (cache s3) = Some exampleResponse
        \<and> cacheHits (stats (statsManager s3)) = cacheHits (stats (statsManager exampleCached)) + 1
        \<and> totalRequests (stats (statsManager s3))
            = totalRequests (stats (statsManager exampleCached))"
  by (rule second_trigger_served_from_cache
        [OF example_reachable(1) example_start example_facts(1) example_resumed example_facts(9)
            example_facts(10) example_facts(11) example_facts(12) example_facts(13)
            example_same_projection(1) example_same_projection(2) example_same_projection(3)
            example_same_projection(4)])

text \<open>
  The claim as it was stated has the second call see \<^verbatim>\<open>metadata.cacheHit\<close> equal to
  true. In this run the service reported \<^verbatim>\<open>cacheHit: false\<close> with its successful
  response; the second trigger is answered from the cache, and the response it is
  answered from still says false.
\<close>

theorem cached_response_keeps_cacheHit_counterexample:
  "status exampleResponse = Success
   \<and> cacheHit (metadata exampleResponse) = False
   \<and> provideCompletionItems_start digest0 exampleTrigger (newProvider freshStatistics)
       = (Awaiting examplePending, exampleInFlight)
   \<and> provideCompletionItems_resume examplePending exampleResponse exampleClock exampleInFlight
       = (exampleItems, exampleCached)
   \<and> fst (provideCompletionItems_start digest0 exampleTrigger' exampleCached)
       = Returned exampleItems
   \<and> map_option (\<lambda>r. cacheHit (metadata r))
        (map_get (p_contextHash examplePending)
           (cache (snd (provideCompletionItems_start digest0 exampleTrigger' exampleCached))))
       = Some False"
proof -
  obtain s3 where
    "provideCompletionItems_start digest0 exampleTrigger' exampleCached = (Returned exampleItems, s3)"
    and "map_get (p_contextHash examplePending) (cache s3) = Some exampleResponse"
    using cache_hit_after_success
        [OF example_facts(4) example_start example_facts(1) example_resumed example_facts(9)
            example_facts(10) example_facts(11) example_facts(12) example_facts(13)
            example_same_projection(1) example_same_projection(2) example_same_projection(3)
            example_same_projection(4)]
    by blast
  then show ?thesis
    using example_start example_resumed by (simp add: example_facts)
qed

text \<open>
  C8. The claim has the items ordered by descending confidence. Both suggestions of
  this input are flagged language-specific; the first has confidence 1, the second
  15/16. Their sort values are \<open>1000 - 999 - 100 = -99\<close> and \<open>1000 - 937 - 100 = -37\<close>,
  the sort texts of the items are \<^verbatim>\<open>0-99\<close> and \<^verbatim>\<open>0-37\<close>, and the second is the
  smaller string: the editor shows the less confident suggestion first. Where the sort
  value is not negative the order is the claimed one (\<open>sortText_orders_nonnegative\<close>,
  \<open>sortValue_antitone\<close>, \<open>bonus_orders_first\<close> above).
\<close>

theorem sortText_inverts_negative_sort_values:
  "languageSpecific suggestionSure = Some True
   \<and> languageSpecific suggestionLessSure = Some True
   \<and> confidence suggestionLessSure < confidence suggestionSure
   \<and> sortValue suggestionSure = - 99
   \<and> sortValue suggestionLessSure = - 37
   \<and> (case convertToCompletionItems defaultConfigs [suggestionSure, suggestionLessSure]
              exampleEnhanced of
          Inl e \<Rightarrow> []
        | Inr items \<Rightarrow> map sortText items) = [''0-99'', ''0-37'']
   \<and> str_less ''0-37'' ''0-99''"
proof -
  have a: "Math_round (1 * 999) = 999"
    unfolding Math_round_def by (rule floor_unique) simp_all
  have b: "Math_round (15 / 16 * 999) = 937"
    unfolding Math_round_def by (rule floor_unique) simp_all
  have va: "sortValue suggestionSure = - 99"
    using a by (simp add: sortValue_def priorityBonus_def suggestionSure_def)
  have vb: "sortValue suggestionLessSure = - 37"
    using b by (simp add: sortValue_def priorityBonus_def suggestionLessSure_def)
  have ta: "sortText_of suggestionSure = ''0-99''"
    by (simp add: sortText_of_def va padStart_def String_of_int_def string_of_nat.simps)
  have tb: "sortText_of suggestionLessSure = ''0-37''"
    by (simp add: sortText_of_def vb padStart_def String_of_int_def string_of_nat.simps)
  obtain items where
    conv: "convertToCompletionItems defaultConfigs [suggestionSure, suggestionLessSure]
             exampleEnhanced = Inr items"
    using example_conversion_succeeds by blast
  then have "map sortText items = map sortText_of [suggestionSure, suggestionLessSure]"
    unfolding convertToCompletionItems_def by (rule convert_from_sortText)
  then have texts: "map sortText items = [''0-99'', ''0-37'']"
    by (simp add: ta tb)
  have flags: "languageSpecific suggestionSure = Some True
               \<and> languageSpecific suggestionLessSure = Some True
               \<and> confidence suggestionLessSure < confidence suggestionSure"
    by (simp add: suggestionSure_def suggestionLessSure_def)
  have less: "str_less ''0-37'' ''0-99''"
    by simp
  show ?thesis
    using flags va vb less by (simp add: conv texts)
qed

text \<open>
  C9. With a language configuration whose indent is a tab or a non-negative number of
  spaces, \<open>formatSuggestionText\<close> returns the first line as it is and every later line
  with its leading white space replaced by one indent unit; a text without a line feed
  is returned unchanged; and formatting the result again returns the result.
\<close>

theorem formatSuggestionText_reindents_idempotently:
  assumes "cfg_indentStyle config = Tabs \<or> 0 \<le> cfg_indentSize config"
  shows "formatSuggestionText body ctx (Some config) =
           Inr (join_with [CHR 0x0A]
                 (hd (split_on (CHR 0x0A) body)
                  # map (\<lambda>line. (if cfg_indentStyle config = Tabs then [CHR 0x09]
                                   else replicate (nat (cfg_indentSize config)) (CHR '' ''))
                                  @ dropWhile isWhitespace line)
                      (tl (split_on (CHR 0x0A) body))))
       \<and> (CHR 0x0A \<notin> set body \<longrightarrow> formatSuggestionText body ctx (Some config) = Inr body)
       \<and> (\<forall>out. formatSuggestionText body ctx (Some config) = Inr out
                 \<longrightarrow> formatSuggestionText out ctx (Some config) = Inr out)"
proof -
  let ?ind = "if cfg_indentStyle config = Tabs then [CHR 0x09]
              else replicate (nat (cfg_indentSize config)) (CHR '' '')"
  have ind: "indentChar_of config = Inr ?ind"
    using assms by (rule indentChar_of_ok)
  have "replace_leading_space ?ind = (\<lambda>line. ?ind @ dropWhile isWhitespace line)"
    by (rule ext) (simp add: replace_leading_space_def)
  then have a: "formatSuggestionText body ctx (Some config) =
           Inr (join_with [CHR 0x0A]
                 (hd (split_on (CHR 0x0A) body)
                  # map (\<lambda>line. ?ind @ dropWhile isWhitespace line)
                      (tl (split_on (CHR 0x0A) body))))"
    using formatSuggestionText_Some [OF ind, of body ctx] by simp
  from a show ?thesis
    using formatSuggestionText_single_line formatSuggestionText_idem by blast
qed

theorem formatSuggestionText_reindents_idempotently_witness:
  "formatSuggestionText exampleSuggestionText exampleEnhanced (Some pythonConfig)
     = Inr (''if n < 2:'' @ [CHR 0x0A] @ ''    return n'' @ [CHR 0x0A] @ ''    return 0'')
   \<and> formatSuggestionText
        (''if n < 2:'' @ [CHR 0x0A] @ ''    return n'' @ [CHR 0x0A] @ ''    return 0'')
        exampleEnhanced (Some pythonConfig)
     = Inr (''if n < 2:'' @ [CHR 0x0A] @ ''    return n'' @ [CHR 0x0A] @ ''    return 0'')
   \<and> formatSuggestionText ''return n'' exampleEnhanced (Some pythonConfig) = Inr ''return n''"
proof -
  have h: "cfg_indentStyle pythonConfig = Tabs \<or> 0 \<le> cfg_indentSize pythonConfig"
    by (simp add: pythonConfig_def)
  have sp: "split_on (CHR 0x0A) exampleSuggestionText
            = [''if n < 2:'', ''        return n'', ''return 0'']"
    by (simp add: exampleSuggestionText_def)
  note a = formatSuggestionText_reindents_idempotently
             [OF h, of exampleSuggestionText exampleEnhanced]
  note b = formatSuggestionText_reindents_idempotently [OF h, of "''return n''" exampleEnhanced]
  have first: "formatSuggestionText exampleSuggestionText exampleEnhanced (Some pythonConfig)
     = Inr (''if n < 2:'' @ [CHR 0x0A] @ ''    return n'' @ [CHR 0x0A] @ ''    return 0'')"
    using a by (simp add: sp pythonConfig_def isWhitespace_def eval_nat_numeral)
  have single: "formatSuggestionText ''return n'' exampleEnhanced (Some pythonConfig) = Inr ''return n''"
    using b by simp
  from a first single show ?thesis by blast
qed

text \<open>
  C10. Both rate queries return a finite number for every state of the statistics: 0
  when the divisor (\<open>totalSuggestions\<close>, \<open>totalRequests\<close>) is 0, otherwise the quotient
  times 100. Neither reaches a division by zero.
\<close>

theorem rates_are_division_safe:
  "getAcceptanceRate sm =
     Num (if totalSuggestions (stats sm) = 0 then 0
          else of_nat (acceptedSuggestions (stats sm)) / of_nat (totalSuggestions (stats sm)) * 100)
   \<and> getCacheHitRate sm =
     Num (if totalRequests (stats sm) = 0 then 0
          else of_nat (cacheHits (stats sm)) / of_nat (totalRequests (stats sm)) * 100)"
  by (simp add: getAcceptanceRate_def getCacheHitRate_def js_div_def)

theorem rates_are_division_safe_witness:
  "getAcceptanceRate freshStatistics = Num 0
   \<and> getCacheHitRate freshStatistics = Num 0
   \<and> getAcceptanceRate exampleStatistics = Num 75
   \<and> getCacheHitRate exampleStatistics = Num 50"
  using rates_are_division_safe [of freshStatistics] rates_are_division_safe [of exampleStatistics]
  by (simp add: freshStatistics_def exampleStatistics_def)


end
